theory Spec2Isabelle
  imports Complex_Main "HOL-Library.Log_Nat" "HOL-Library.Code_Target_Nat"
begin

section \<open>The plate scoring engine of \<^verbatim>\<open>src/scoring.js\<close>\<close>

text \<open>
  The engine is three pure functions over strings and numbers: \<^verbatim>\<open>parseTurkishPlate\<close>,
  \<^verbatim>\<open>detectPlateType\<close> and \<^verbatim>\<open>calculatePlateScore\<close>, with the helper
  \<^verbatim>\<open>isSequential\<close> and the constant tables \<^verbatim>\<open>provinceTiers\<close>,
  \<^verbatim>\<open>specialPlateTypes\<close> and \<^verbatim>\<open>sequentialPatterns\<close>.

  \<^bold>\<open>Strings.\<close> A plate text is a HOL \<open>string\<close>: a list of 8-bit characters, read as the
  code units \<open>0 .. 255\<close> of a JavaScript string. The built-ins the source calls are written
  out for this alphabet: the regular-expression classes \<^verbatim>\<open>\d\<close>, \<^verbatim>\<open>[A-Z]\<close> and
  \<^verbatim>\<open>[\s-]\<close>, \<^verbatim>\<open>toUpperCase\<close>, \<^verbatim>\<open>padStart\<close>, \<^verbatim>\<open>substring\<close>,
  \<^verbatim>\<open>includes\<close>, \<^verbatim>\<open>parseInt\<close> and the relational operators on strings.

  \<^bold>\<open>Numbers.\<close> A number is a binary64 value (\<open>jsnum\<close> below), and \<^verbatim>\<open>+\<close> and
  \<^verbatim>\<open>*\<close> round as the language does: the exact result is rounded to the nearest
  binary64 value, ties to even, and overflows to \<^verbatim>\<open>Infinity\<close>. The number literals
  of the source are dyadic rationals (1, 1.5, 2.5, 5, 7.5, 10, ...), hence binary64 values
  as they stand.

  No operation of the three functions can throw on a string argument, so the model has no
  error branch: each function is total and returns a plain value.
\<close>

subsection \<open>Built-ins of the language\<close>

definition charCode :: "char \<Rightarrow> nat" where
  "charCode c = of_char c"

text \<open>\<^verbatim>\<open>\d\<close> is \<^verbatim>\<open>[0-9]\<close>; \<^verbatim>\<open>[A-Z]\<close> has no \<^verbatim>\<open>i\<close> flag.\<close>

definition is_digit :: "char \<Rightarrow> bool" where
  "is_digit c = (48 \<le> charCode c \<and> charCode c \<le> 57)"

definition is_AZ :: "char \<Rightarrow> bool" where
  "is_AZ c = (65 \<le> charCode c \<and> charCode c \<le> 90)"

text \<open>
  \<^verbatim>\<open>[\s-]\<close>: the white space of the alphabet (tab, line feed, vertical tab, form feed,
  carriage return, space, no-break space) and the hyphen.
\<close>

definition is_separator :: "char \<Rightarrow> bool" where
  "is_separator c =
     ((9 \<le> charCode c \<and> charCode c \<le> 13) \<or> charCode c = 32 \<or> charCode c = 160
      \<or> charCode c = 45)"

text \<open>
  \<^verbatim>\<open>toUpperCase\<close>, one code unit at a time: \<^verbatim>\<open>a-z\<close> go to \<^verbatim>\<open>A-Z\<close>, the sharp s
  (223) becomes the two letters \<^verbatim>\<open>SS\<close>, and the accented small letters 224 .. 254 (without
  the division sign 247) lose 32. The images of 181 and 255 lie outside the alphabet; they
  are kept as they are, which no test of the program can tell from their images (neither is
  a digit, a letter of \<^verbatim>\<open>A-Z\<close> or a separator, and no parsed field ever holds them).
\<close>

definition upperChar :: "char \<Rightarrow> string" where
  "upperChar c =
     (let n = charCode c in
      if 97 \<le> n \<and> n \<le> 122 then [char_of (n - 32)]
      else if n = 223 then ''SS''
      else if 224 \<le> n \<and> n \<le> 254 \<and> n \<noteq> 247 then [char_of (n - 32)]
      else [c])"

definition toUpperCase :: "string \<Rightarrow> string" where
  "toUpperCase s = concat (map upperChar s)"

text \<open>\<^verbatim>\<open>s.padStart(n, "0")\<close> and \<^verbatim>\<open>s.substring(k)\<close>.\<close>

definition padStart :: "nat \<Rightarrow> char \<Rightarrow> string \<Rightarrow> string" where
  "padStart n c s = replicate (n - length s) c @ s"

definition substring :: "nat \<Rightarrow> string \<Rightarrow> string" where
  "substring k s = drop k s"

text \<open>
  The three anchored matches of the parser. Each returns the first capture group, or
  \<open>None\<close> where \<^verbatim>\<open>match\<close> returns \<^verbatim>\<open>null\<close>. The quantifiers are greedy and the
  group is the whole match, so the group is the longest run the class allows.
\<close>

definition match_province :: "string \<Rightarrow> string option" where
  \<comment> \<open>\<^verbatim>\<open>/^(\d{1,2})/\<close>\<close>
  "match_province s =
     (let m = takeWhile is_digit (take 2 s) in if m = [] then None else Some m)"

definition match_letters :: "string \<Rightarrow> string option" where
  \<comment> \<open>\<^verbatim>\<open>/^([A-Z]+)/\<close>\<close>
  "match_letters s =
     (let m = takeWhile is_AZ s in if m = [] then None else Some m)"

definition match_digits :: "string \<Rightarrow> string option" where
  \<comment> \<open>\<^verbatim>\<open>/^(\d+)/\<close>\<close>
  "match_digits s =
     (let m = takeWhile is_digit s in if m = [] then None else Some m)"

text \<open>
  \<^verbatim>\<open>a < b\<close> on strings compares code units at the first position where the strings
  differ; a proper prefix is smaller. \<^verbatim>\<open>a >= b\<close> is \<^verbatim>\<open>!(a < b)\<close> and \<^verbatim>\<open>a <= b\<close> is
  \<^verbatim>\<open>!(b < a)\<close>.
\<close>

fun js_lt :: "string \<Rightarrow> string \<Rightarrow> bool" where
  "js_lt _ [] = False"
| "js_lt [] (_ # _) = True"
| "js_lt (x # xs) (y # ys) = (if x = y then js_lt xs ys else charCode x < charCode y)"

definition js_ge :: "string \<Rightarrow> string \<Rightarrow> bool" where
  "js_ge a b = (\<not> js_lt a b)"

definition js_le :: "string \<Rightarrow> string \<Rightarrow> bool" where
  "js_le a b = (\<not> js_lt b a)"

text \<open>\<^verbatim>\<open>s.includes(p)\<close>: \<open>p\<close> occurs in \<open>s\<close> as a contiguous substring.\<close>

fun js_includes :: "string \<Rightarrow> string \<Rightarrow> bool" where
  "js_includes [] p = (p = [])"
| "js_includes (x # xs) p = (take (length p) (x # xs) = p \<or> js_includes xs p)"

subsection \<open>Numbers\<close>

text \<open>
  A number of the language is a binary64 value: a finite value, which is a rational, one
  of the two infinities, or \<^verbatim>\<open>NaN\<close>. The two zeros are one value here, \<open>Fin 0\<close>: the
  program never divides and never asks for the sign of a zero.
\<close>

datatype jsnum = Fin rat | PInf | NInf | NaN

text \<open>Rounding to the nearest integer, a tie going to the even one.\<close>

definition roundHalfEven :: "rat \<Rightarrow> int" where
  "roundHalfEven y =
     (let f = \<lfloor>y\<rfloor>; d = y - of_int f in
      if d < 1 / 2 then f
      else if 1 / 2 < d then f + 1
      else if even f then f else f + 1)"

text \<open>
  The binary64 value of a real number (round to nearest, ties to even). The magnitude
  is scaled by \<open>2^1074\<close>, so that the smallest positive binary64 value becomes 1. A scaled
  magnitude \<open>y\<close> with \<open>2^(b-1) \<le> y < 2^b\<close> keeps 53 significant bits: it is rounded
  to a multiple of \<open>2^(b-53)\<close>, and to an integer when \<open>b \<le> 53\<close> (the subnormal
  range). A result of magnitude \<open>2^1024\<close> or more is an infinity.
\<close>

definition round64 :: "rat \<Rightarrow> jsnum" where
  "round64 x =
     (let y = \<bar>x\<bar> * 2 ^ 1074;
          q = nat (bitlen \<lfloor>y\<rfloor> - 53);
          m = roundHalfEven (y / 2 ^ q);
          r = of_int m * 2 ^ q / 2 ^ 1074
      in if 2 ^ 1024 \<le> r then (if 0 < x then PInf else NInf)
         else Fin (if x < 0 then - r else r))"

text \<open>\<^verbatim>\<open>a + b\<close> and \<^verbatim>\<open>a * b\<close> on numbers.\<close>

fun fadd :: "jsnum \<Rightarrow> jsnum \<Rightarrow> jsnum" where
  "fadd NaN _ = NaN"
| "fadd _ NaN = NaN"
| "fadd PInf NInf = NaN"
| "fadd NInf PInf = NaN"
| "fadd PInf _ = PInf"
| "fadd _ PInf = PInf"
| "fadd NInf _ = NInf"
| "fadd _ NInf = NInf"
| "fadd (Fin a) (Fin b) = round64 (a + b)"

fun fmul :: "jsnum \<Rightarrow> jsnum \<Rightarrow> jsnum" where
  "fmul NaN _ = NaN"
| "fmul _ NaN = NaN"
| "fmul (Fin a) (Fin b) = round64 (a * b)"
| "fmul (Fin a) PInf = (if a = 0 then NaN else if 0 < a then PInf else NInf)"
| "fmul (Fin a) NInf = (if a = 0 then NaN else if 0 < a then NInf else PInf)"
| "fmul PInf (Fin b) = (if b = 0 then NaN else if 0 < b then PInf else NInf)"
| "fmul NInf (Fin b) = (if b = 0 then NaN else if 0 < b then NInf else PInf)"
| "fmul PInf PInf = PInf"
| "fmul PInf NInf = NInf"
| "fmul NInf PInf = NInf"
| "fmul NInf NInf = PInf"

text \<open>\<^verbatim>\<open>a <= b\<close> on numbers: false when one of them is \<^verbatim>\<open>NaN\<close>.\<close>

fun fle :: "jsnum \<Rightarrow> jsnum \<Rightarrow> bool" where
  "fle NaN _ = False"
| "fle _ NaN = False"
| "fle NInf _ = True"
| "fle _ PInf = True"
| "fle PInf _ = False"
| "fle _ NInf = False"
| "fle (Fin a) (Fin b) = (a \<le> b)"

text \<open>
  \<^verbatim>\<open>x || d\<close> where \<open>x\<close> is a number or \<^verbatim>\<open>undefined\<close> (\<open>None\<close>):
  \<^verbatim>\<open>undefined\<close>, \<^verbatim>\<open>NaN\<close> and \<^verbatim>\<open>0\<close> are falsy.
\<close>

definition js_or :: "jsnum option \<Rightarrow> jsnum \<Rightarrow> jsnum" where
  "js_or x d =
     (case x of None \<Rightarrow> d | Some v \<Rightarrow> if v = NaN \<or> v = Fin 0 then d else v)"

text \<open>
  \<^verbatim>\<open>parseInt\<close> on the strings the program gives it (the digit block, and single
  characters of it): the number nearest to the value of the leading run of decimal digits,
  \<^verbatim>\<open>NaN\<close> when there is none. White space, a sign or a \<^verbatim>\<open>0x\<close> prefix cannot occur
  in a digit block. (Beyond 20 significant digits the language lets an implementation read
  the later digits as zeros; the program only compares the result with 9, 99 and 999.)
  \<open>digitValue\<close> is only applied to decimal digits, whose code is at least 48.
\<close>

definition digitValue :: "char \<Rightarrow> nat" where
  "digitValue c = charCode c - 48"

definition decimalValue :: "string \<Rightarrow> nat" where
  "decimalValue ds = foldl (\<lambda>acc c. 10 * acc + digitValue c) 0 ds"

definition parseInt :: "string \<Rightarrow> jsnum" where
  "parseInt s =
     (let ds = takeWhile is_digit s in
      if ds = [] then NaN else round64 (of_nat (decimalValue ds)))"

subsection \<open>Data model and constant tables\<close>

record ParsedPlate =
  provinceCode :: string
  letters :: string
  digits :: string

datatype PlateType =
  STANDARD | UNIVERSITY | POLICE | GENDARMERIE | COAST_GUARD
  | DIPLOMATIC | CONSULATE | FOREIGN | TAXI

record ScoreBreakdown =
  province :: jsnum
  letters :: jsnum
  digits :: jsnum
  digitsum :: jsnum
  special :: jsnum

record ScoreResult =
  totalScore :: jsnum
  plateType :: PlateType
  breakdown :: ScoreBreakdown
  parsed :: ParsedPlate

text \<open>
  The object \<^verbatim>\<open>provinceTiers\<close>, key by key, with its last key \<^verbatim>\<open>default\<close>. A lookup
  \<^verbatim>\<open>provinceTiers[k]\<close> is \<open>lookup provinceTiers k\<close>, defined with the score below.
\<close>

definition provinceTiers :: "(string \<times> rat) list" where
  "provinceTiers =
    [(''01'', 1.5), (''06'', 1.5), (''07'', 1.5), (''16'', 1.5), (''34'', 1.5), (''35'', 1.5),
     (''02'', 2.5), (''04'', 2.5), (''09'', 2.5), (''10'', 2.5), (''11'', 2.5), (''20'', 2.5),
     (''21'', 2.5), (''25'', 2.5), (''26'', 2.5), (''27'', 2.5), (''31'', 2.5), (''38'', 2.5),
     (''41'', 2.5), (''42'', 2.5), (''43'', 2.5), (''44'', 2.5), (''45'', 2.5), (''46'', 2.5),
     (''47'', 2.5), (''48'', 2.5), (''54'', 2.5), (''55'', 2.5), (''59'', 2.5), (''61'', 2.5),
     (''03'', 5), (''05'', 5), (''08'', 5), (''12'', 5), (''13'', 5), (''14'', 5), (''15'', 5),
     (''17'', 5), (''18'', 5), (''19'', 5), (''22'', 5), (''23'', 5), (''24'', 5), (''28'', 5),
     (''29'', 5), (''30'', 5), (''32'', 5), (''36'', 5), (''37'', 5), (''39'', 5), (''40'', 5),
     (''49'', 5), (''50'', 5), (''51'', 5), (''52'', 5), (''53'', 5), (''56'', 5), (''57'', 5),
     (''58'', 5), (''60'', 5), (''62'', 5), (''63'', 5), (''64'', 5), (''65'', 5), (''66'', 5),
     (''67'', 5), (''68'', 5), (''69'', 5), (''70'', 5), (''71'', 5), (''72'', 5), (''73'', 5),
     (''74'', 5), (''77'', 5), (''78'', 5), (''79'', 5), (''80'', 5),
     (''33'', 10), (''75'', 10), (''76'', 10), (''81'', 10),
     (''default'', 1)]"

definition specialPlateTypes :: "(PlateType \<times> rat) list" where
  "specialPlateTypes =
    [(STANDARD, 1), (UNIVERSITY, 15), (POLICE, 20), (GENDARMERIE, 25), (COAST_GUARD, 25),
     (DIPLOMATIC, 30), (CONSULATE, 25), (FOREIGN, 20), (TAXI, 15)]"

definition sequentialPatterns :: "string list" where
  "sequentialPatterns =
    [''ABC'', ''BCD'', ''CDE'', ''DEF'', ''EFG'', ''FGH'', ''GHI'', ''HIJ'', ''IJK'', ''JKL'',
     ''KLM'', ''LMN'', ''MNO'', ''NOP'', ''OPR'', ''PRS'', ''RST'', ''STU'', ''TUV'', ''UVY'',
     ''VYZ'']"

subsection \<open>\<^verbatim>\<open>parseTurkishPlate\<close> (lines 117-136)\<close>

text \<open>
  A local variable of the source whose name is also a field or a function of this theory
  carries a prime (\<open>letters'\<close> for \<^verbatim>\<open>letters\<close>).
\<close>

definition normalize :: "string \<Rightarrow> string" where
  \<comment> \<open>\<^verbatim>\<open>plateText.replace(/[\s-]/g, "").toUpperCase()\<close>\<close>
  "normalize plateText = toUpperCase (filter (\<lambda>c. \<not> is_separator c) plateText)"

definition parseTurkishPlate :: "string \<Rightarrow> ParsedPlate" where
  "parseTurkishPlate plateText0 =
     (let plateText = normalize plateText0;
          provinceMatch = match_province plateText;
          provinceCode' = (case provinceMatch of Some m \<Rightarrow> padStart 2 CHR ''0'' m | None \<Rightarrow> []);
          remainingText = substring (length provinceCode') plateText;
          lettersMatch = match_letters remainingText;
          letters' = (case lettersMatch of Some m \<Rightarrow> m | None \<Rightarrow> []);
          remainingText = substring (length letters') remainingText;
          digitsMatch = match_digits remainingText;
          digits' = (case digitsMatch of Some m \<Rightarrow> m | None \<Rightarrow> [])
      in \<lparr> provinceCode = provinceCode', letters = letters', digits = digits' \<rparr>)"

subsection \<open>\<^verbatim>\<open>detectPlateType\<close> (lines 143-164)\<close>

definition detectPlateType :: "string \<Rightarrow> PlateType" where
  "detectPlateType letters' =
     (if letters' = ''AA'' then UNIVERSITY
      else if letters' = ''A'' \<or> letters' = ''AAA'' then POLICE
      else if letters' = ''JAA'' then GENDARMERIE
      else if letters' = ''SGH'' then COAST_GUARD
      else if letters' = ''CD'' then DIPLOMATIC
      else if letters' = ''CC'' then CONSULATE
      else if length letters' = 2 \<and> js_ge letters' ''MA'' \<and> js_le letters' ''MZ'' then FOREIGN
      else if length letters' = 3 \<and> js_ge letters' ''TAA'' \<and> js_le letters' ''TKZ'' then TAXI
      else STANDARD)"

subsection \<open>\<^verbatim>\<open>isSequential\<close> (lines 269-296)\<close>

definition isSequential :: "string \<Rightarrow> bool" where
  "isSequential letters' =
     list_ex (\<lambda>pattern. js_includes letters' pattern) sequentialPatterns"

subsection \<open>\<^verbatim>\<open>calculatePlateScore\<close> (lines 171-262)\<close>

text \<open>
  The function is one straight line of assignments to \<^verbatim>\<open>letterScore\<close>,
  \<^verbatim>\<open>letterSum\<close>, \<^verbatim>\<open>digitSum\<close> and \<^verbatim>\<open>digitScore\<close>. Each block of it is a definition
  here, named after the variable it assigns, and \<open>calculatePlateScore\<close> puts them together
  in the order of the source.
\<close>

text \<open>
  Lines 174 and 188-206: \<^verbatim>\<open>letterScore\<close> starts at 1 and is reassigned only for a
  STANDARD plate with a non-empty letter block of length at least 2.
  \<^verbatim>\<open>new Set(letters.split("")).size\<close> is the number of distinct code units.
\<close>

definition setSize :: "string \<Rightarrow> nat" where
  "setSize letters' = length (remdups letters')"

text \<open>
  Lines 190-199, the first adjustment: an \<^verbatim>\<open>if\<close> with an \<^verbatim>\<open>else if\<close>, whose
  argument is the value \<^verbatim>\<open>letterScore\<close> has before it.
\<close>

definition repeatingOrSequential :: "rat \<Rightarrow> string \<Rightarrow> rat" where
  "repeatingOrSequential letterScore letters' =
     (if setSize letters' = 1 then (if length letters' \<ge> 3 then 20 else 10)
      else if isSequential letters' then 5
      else letterScore)"

text \<open>Lines 201-204, the second adjustment: an \<^verbatim>\<open>if\<close> of its own, after the first.\<close>

definition allSameBoost :: "rat \<Rightarrow> string \<Rightarrow> rat" where
  "allSameBoost letterScore letters' =
     (if length letters' \<ge> 3 \<and> setSize letters' = 1 then 7.5 else letterScore)"

definition letterPatternScore :: "PlateType \<Rightarrow> string \<Rightarrow> rat" where
  "letterPatternScore plateType' letters' =
     (let letterScore = 1 in
      if plateType' = STANDARD \<and> letters' \<noteq> [] then
        if length letters' \<ge> 2 then
          let letterScore = repeatingOrSequential letterScore letters';
              letterScore = allSameBoost letterScore letters'
          in letterScore
        else letterScore
      else letterScore)"

text \<open>
  Lines 210-219: the loop over the letter block, multiplying into \<^verbatim>\<open>letterSum\<close>.
  \<^verbatim>\<open>charCodeAt(i) - 64\<close> is the difference of two integers below \<open>2^16\<close>, which is
  exact; it can be negative, so the position is a rational.
\<close>

definition letterPosition :: "char \<Rightarrow> rat" where
  "letterPosition c = of_nat (charCode c) - 64"

definition letterSum :: "string \<Rightarrow> jsnum" where
  "letterSum letters' =
     foldl (\<lambda>acc c.
              if letterPosition c \<ge> 1 \<and> letterPosition c \<le> 26
              then fmul acc (Fin (letterPosition c)) else acc)
           (Fin 1) letters'"

text \<open>Lines 227-231: the loop over the digit block, adding into \<^verbatim>\<open>digitSum\<close>.\<close>

definition digitSum :: "string \<Rightarrow> jsnum" where
  "digitSum digitString =
     foldl (\<lambda>acc c. fadd acc (js_or (Some (parseInt [c])) (Fin 1))) (Fin 0) digitString"

text \<open>Lines 233-241: the tier of the numeric value of the digit block.\<close>

definition digitScore :: "jsnum \<Rightarrow> rat" where
  "digitScore numDigits =
     (if fle numDigits (Fin 9) then 10
      else if fle numDigits (Fin 99) then 5
      else if fle numDigits (Fin 999) then 2.5
      else 1)"

text \<open>
  A property read of a table: the number under the key, or \<^verbatim>\<open>undefined\<close>. The number
  literals of the source (1, 1.5, 2.5, 5, 7.5, 10, ...) are binary64 values as they stand.
\<close>

definition lookup :: "('k \<times> rat) list \<Rightarrow> 'k \<Rightarrow> jsnum option" where
  "lookup table k = map_option Fin (map_of table k)"

definition calculatePlateScore :: "string \<Rightarrow> ScoreResult" where
  "calculatePlateScore plateText =
     (let p = parseTurkishPlate plateText;
          provinceCode' = provinceCode p;
          letters' = ParsedPlate.letters p;
          digits' = ParsedPlate.digits p;
          plateType' = detectPlateType letters';
          provinceScore = js_or (lookup provinceTiers provinceCode')
                                (the (lookup provinceTiers ''default''));
          letterScore = Fin (letterPatternScore plateType' letters');
          letterScore = fadd letterScore (letterSum letters');
          numDigits = js_or (Some (parseInt digits')) (Fin 1);
          digitSum' = digitSum digits';
          digitScore' = Fin (digitScore numDigits);
          specialScore = js_or (lookup specialPlateTypes plateType') (Fin 1);
          totalScore' =
            fmul (fmul (fmul (fadd letterScore digitSum') digitScore') provinceScore)
                 specialScore
      in \<lparr> totalScore = totalScore',
           plateType = plateType',
           breakdown = \<lparr> province = provinceScore, letters = letterScore,
                         digits = digitScore', digitsum = digitSum', special = specialScore \<rparr>,
           parsed = \<lparr> provinceCode = provinceCode', letters = letters', digits = digits' \<rparr> \<rparr>)"

subsection \<open>The same computation in exact arithmetic\<close>

text \<open>
  The score written as a formula over the rationals, with no rounding: the product of the
  letter positions, the sum of the digits with every \<^verbatim>\<open>0\<close> counted as 1, and the
  total. It is the reference the binary64 computation is compared with: on a letter block
  of at most 3 letters and a digit block of at most 4 digits (every plate of the validated
  format) the two agree (\<open>short_plate_exact\<close> below).
\<close>

definition zeroAsOne :: "char \<Rightarrow> nat" where
  "zeroAsOne c = (if digitValue c = 0 then 1 else digitValue c)"

definition tableOr :: "rat option \<Rightarrow> rat \<Rightarrow> rat" where
  "tableOr x d = (case x of None \<Rightarrow> d | Some v \<Rightarrow> if v = 0 then d else v)"

definition exactPlateScore :: "string \<Rightarrow> ScoreResult" where
  "exactPlateScore plateText =
     (let p = parseTurkishPlate plateText;
          ls = ParsedPlate.letters p;
          ds = ParsedPlate.digits p;
          pt = detectPlateType ls;
          provinceScore = tableOr (map_of provinceTiers (provinceCode p))
                                  (the (map_of provinceTiers ''default''));
          letterScore = letterPatternScore pt ls + prod_list (map letterPosition ls);
          numDigits = (if decimalValue ds = 0 then 1 else of_nat (decimalValue ds));
          digitSum' = of_nat (sum_list (map zeroAsOne ds));
          digitScore' = digitScore (Fin numDigits);
          specialScore = tableOr (map_of specialPlateTypes pt) 1;
          total = (letterScore + digitSum') * digitScore' * provinceScore * specialScore
      in \<lparr> totalScore = Fin total,
           plateType = pt,
           breakdown = \<lparr> province = Fin provinceScore, letters = Fin letterScore,
                         digits = Fin digitScore', digitsum = Fin digitSum',
                         special = Fin specialScore \<rparr>,
           parsed = p \<rparr>)"

subsection \<open>The plate format the callers validate\<close>

text \<open>
  The command handler (\<^verbatim>\<open>src/unnamed/part_000\<close>, line 66) accepts a normalized text
  only if it matches \<^verbatim>\<open>/^\d{1,2}[A-Z]{1,3}\d{1,4}$/\<close>. The three classes are disjoint,
  so the text matches exactly when its leading run of digits has length 1 or 2, the run
  of letters after it has length 1 to 3, and what is left is 1 to 4 digits
  (\<open>canonicalShape_iff\<close> below states this as a decomposition of the text).
\<close>

definition canonicalShape :: "string \<Rightarrow> bool" where
  "canonicalShape s =
     (let p = takeWhile is_digit s; r = dropWhile is_digit s;
          l = takeWhile is_AZ r; d = dropWhile is_AZ r
      in 1 \<le> length p \<and> length p \<le> 2 \<and> 1 \<le> length l \<and> length l \<le> 3
         \<and> 1 \<le> length d \<and> length d \<le> 4 \<and> list_all is_digit d)"

subsection \<open>The classifier as the specification words it\<close>

text \<open>
  The nine rules of the specification, in its order, with its "plain string ordering":
  the lexicographic order \<open>lexord\<close> of the library over the order of the code units.
  It is compared with \<open>detectPlateType\<close> below.
\<close>

definition codeUnitLess :: "(char \<times> char) set" where
  "codeUnitLess = {(a, b). charCode a < charCode b}"

definition lex_le :: "string \<Rightarrow> string \<Rightarrow> bool" where
  "lex_le a b = (a = b \<or> (a, b) \<in> lexord codeUnitLess)"

definition classify_spec :: "string \<Rightarrow> PlateType" where
  "classify_spec ls =
     (if ls = ''AA'' then UNIVERSITY
      else if ls = ''A'' \<or> ls = ''AAA'' then POLICE
      else if ls = ''JAA'' then GENDARMERIE
      else if ls = ''SGH'' then COAST_GUARD
      else if ls = ''CD'' then DIPLOMATIC
      else if ls = ''CC'' then CONSULATE
      else if length ls = 2 \<and> lex_le ''MA'' ls \<and> lex_le ls ''MZ'' then FOREIGN
      else if length ls = 3 \<and> lex_le ''TAA'' ls \<and> lex_le ls ''TKZ'' then TAXI
      else STANDARD)"

subsection \<open>Ranges of numbers\<close>

text \<open>
  Numbers that are at least 1, and numbers that are at least 0; \<^verbatim>\<open>Infinity\<close> is both,
  \<^verbatim>\<open>NaN\<close> is neither.
\<close>

definition ge1 :: "jsnum \<Rightarrow> bool" where
  "ge1 v = (case v of Fin q \<Rightarrow> 1 \<le> q | PInf \<Rightarrow> True | _ \<Rightarrow> False)"

definition ge0 :: "jsnum \<Rightarrow> bool" where
  "ge0 v = (case v of Fin q \<Rightarrow> 0 \<le> q | PInf \<Rightarrow> True | _ \<Rightarrow> False)"

section \<open>Properties\<close>

subsection \<open>The parser, field by field\<close>

lemma provinceCode_of_match:
  "(case match_province s of Some m \<Rightarrow> padStart 2 CHR ''0'' m | None \<Rightarrow> []) =
     (if takeWhile is_digit (take 2 s) = [] then []
      else padStart 2 CHR ''0'' (takeWhile is_digit (take 2 s)))"
  by (simp add: match_province_def Let_def)

lemma letters_of_match:
  "(case match_letters s of Some m \<Rightarrow> m | None \<Rightarrow> []) = takeWhile is_AZ s"
  by (simp add: match_letters_def Let_def)

lemma digits_of_match:
  "(case match_digits s of Some m \<Rightarrow> m | None \<Rightarrow> []) = takeWhile is_digit s"
  by (simp add: match_digits_def Let_def)

lemma parse_provinceCode:
  "provinceCode (parseTurkishPlate t) =
     (if takeWhile is_digit (take 2 (normalize t)) = [] then []
      else padStart 2 CHR ''0'' (takeWhile is_digit (take 2 (normalize t))))"
  by (simp add: parseTurkishPlate_def Let_def provinceCode_of_match)

lemma parse_letters:
  "ParsedPlate.letters (parseTurkishPlate t) =
     takeWhile is_AZ (drop (length (provinceCode (parseTurkishPlate t))) (normalize t))"
  by (simp add: parseTurkishPlate_def Let_def letters_of_match substring_def)

lemma parse_digits:
  "ParsedPlate.digits (parseTurkishPlate t) =
     takeWhile is_digit
       (drop (length (ParsedPlate.letters (parseTurkishPlate t)))
          (drop (length (provinceCode (parseTurkishPlate t))) (normalize t)))"
  by (simp add: parseTurkishPlate_def Let_def letters_of_match digits_of_match substring_def)

text \<open>The province code is empty or has two characters; it is never a word.\<close>

lemma length_provinceCode:
  "length (provinceCode (parseTurkishPlate t)) = 0
   \<or> length (provinceCode (parseTurkishPlate t)) = 2"
proof -
  have "length (takeWhile is_digit (take 2 (normalize t))) \<le> 2"
    by (rule order_trans [OF length_takeWhile_le]) simp
  then show ?thesis by (auto simp: parse_provinceCode padStart_def)
qed

lemma parsed_letters_AZ: "c \<in> set (ParsedPlate.letters (parseTurkishPlate t)) \<Longrightarrow> is_AZ c"
  by (auto simp: parse_letters dest: set_takeWhileD)

lemma parsed_digits_digit: "c \<in> set (ParsedPlate.digits (parseTurkishPlate t)) \<Longrightarrow> is_digit c"
  by (auto simp: parse_digits dest: set_takeWhileD)

lemma is_AZ_not_digit: "is_AZ c \<Longrightarrow> \<not> is_digit c"
  by (simp add: is_AZ_def is_digit_def)

subsection \<open>The validated format as a decomposition\<close>

lemma canonicalShape_iff:
  "canonicalShape s \<longleftrightarrow>
     (\<exists>p l d. s = p @ l @ d
        \<and> p \<noteq> [] \<and> length p \<le> 2 \<and> list_all is_digit p
        \<and> l \<noteq> [] \<and> length l \<le> 3 \<and> list_all is_AZ l
        \<and> d \<noteq> [] \<and> length d \<le> 4 \<and> list_all is_digit d)"
proof
  assume c: "canonicalShape s"
  define p where "p = takeWhile is_digit s"
  define r where "r = dropWhile is_digit s"
  define l where "l = takeWhile is_AZ r"
  define d where "d = dropWhile is_AZ r"
  have "s = p @ l @ d" by (simp add: p_def r_def l_def d_def)
  moreover have "list_all is_digit p" "list_all is_AZ l"
    by (auto simp: p_def l_def list_all_iff dest: set_takeWhileD)
  moreover have lens: "1 \<le> length p" "length p \<le> 2" "1 \<le> length l" "length l \<le> 3"
     "1 \<le> length d" "length d \<le> 4" "list_all is_digit d"
    using c unfolding canonicalShape_def Let_def p_def r_def l_def d_def by blast+
  moreover from lens have "p \<noteq> []" "l \<noteq> []" "d \<noteq> []" by auto
  ultimately show "\<exists>p l d. s = p @ l @ d
        \<and> p \<noteq> [] \<and> length p \<le> 2 \<and> list_all is_digit p
        \<and> l \<noteq> [] \<and> length l \<le> 3 \<and> list_all is_AZ l
        \<and> d \<noteq> [] \<and> length d \<le> 4 \<and> list_all is_digit d"
    by blast
next
  assume "\<exists>p l d. s = p @ l @ d
        \<and> p \<noteq> [] \<and> length p \<le> 2 \<and> list_all is_digit p
        \<and> l \<noteq> [] \<and> length l \<le> 3 \<and> list_all is_AZ l
        \<and> d \<noteq> [] \<and> length d \<le> 4 \<and> list_all is_digit d"
  then obtain p l d where s: "s = p @ l @ d"
    and p: "p \<noteq> []" "length p \<le> 2" "list_all is_digit p"
    and l: "l \<noteq> []" "length l \<le> 3" "list_all is_AZ l"
    and d: "d \<noteq> []" "length d \<le> 4" "list_all is_digit d"
    by blast
  from l obtain x xs where lx: "l = x # xs" and x: "is_AZ x"
    by (cases l) auto
  from d obtain y ys where dy: "d = y # ys" and y: "is_digit y"
    by (cases d) auto
  have nx: "\<not> is_digit x" using x by (rule is_AZ_not_digit)
  have ny: "\<not> is_AZ y" using y is_AZ_not_digit by blast
  have tp: "takeWhile is_digit s = p"
    using p(3) nx by (simp add: s lx list_all_iff takeWhile_append2)
  have dp: "dropWhile is_digit s = l @ d"
    using p(3) nx by (simp add: s lx list_all_iff dropWhile_append2)
  have tl: "takeWhile is_AZ (l @ d) = l"
    using l(3) ny by (simp add: dy list_all_iff takeWhile_append2)
  have dl: "dropWhile is_AZ (l @ d) = d"
    using l(3) ny by (simp add: dy list_all_iff dropWhile_append2)
  show "canonicalShape s"
    unfolding canonicalShape_def Let_def tp dp tl dl
    using p l d by (simp add: Suc_le_eq)
qed

text \<open>A text of the validated format is its own normal form.\<close>

lemma upperChar_fixed: "is_digit c \<or> is_AZ c \<Longrightarrow> upperChar c = [c]"
  by (auto simp: upperChar_def Let_def is_digit_def is_AZ_def)

lemma not_separator: "is_digit c \<or> is_AZ c \<Longrightarrow> \<not> is_separator c"
  by (auto simp: is_separator_def is_digit_def is_AZ_def)

lemma normalize_fixed:
  "\<forall>c \<in> set s. is_digit c \<or> is_AZ c \<Longrightarrow> normalize s = s"
proof (induction s)
  case Nil
  show ?case by (simp add: normalize_def toUpperCase_def)
next
  case (Cons c s)
  then have "normalize s = s" by simp
  moreover have "upperChar c = [c]" "\<not> is_separator c"
    using Cons.prems by (simp_all add: upperChar_fixed not_separator)
  ultimately show ?case by (simp add: normalize_def toUpperCase_def)
qed

lemma canonicalShape_normalized: "canonicalShape s \<Longrightarrow> normalize s = s"
proof -
  assume "canonicalShape s"
  then obtain p l d where "s = p @ l @ d" "list_all is_digit p" "list_all is_AZ l"
      "list_all is_digit d"
    unfolding canonicalShape_iff by blast
  then have "\<forall>c \<in> set s. is_digit c \<or> is_AZ c"
    by (auto simp: list_all_iff)
  then show ?thesis by (rule normalize_fixed)
qed

subsection \<open>The order on strings\<close>

lemma charCode_inj: "charCode a = charCode b \<longleftrightarrow> a = b"
  by (simp add: charCode_def)

lemma js_lt_lexord: "js_lt a b \<longleftrightarrow> (a, b) \<in> lexord codeUnitLess"
  by (induction a b rule: js_lt.induct) (auto simp: codeUnitLess_def)

lemma js_lt_total: "\<not> js_lt a b \<longleftrightarrow> (a = b \<or> js_lt b a)"
proof (induction a b rule: js_lt.induct)
  case (1 a)
  show ?case by (cases a) simp_all
next
  case (2 y ys)
  show ?case by simp
next
  case (3 x xs y ys)
  have "x \<noteq> y \<Longrightarrow> charCode x \<noteq> charCode y"
    by (simp add: charCode_inj)
  with 3 show ?case by auto
qed

lemma js_ge_lex: "js_ge a b \<longleftrightarrow> lex_le b a"
proof -
  have "js_ge a b \<longleftrightarrow> (a = b \<or> js_lt b a)"
    by (simp add: js_ge_def js_lt_total)
  then show ?thesis by (auto simp: lex_le_def js_lt_lexord)
qed

lemma js_le_lex: "js_le a b \<longleftrightarrow> lex_le a b"
proof -
  have "js_le a b \<longleftrightarrow> (b = a \<or> js_lt a b)"
    by (simp add: js_le_def js_lt_total)
  then show ?thesis by (auto simp: lex_le_def js_lt_lexord)
qed

lemma detect_classify: "detectPlateType ls = classify_spec ls"
  by (simp add: detectPlateType_def classify_spec_def js_ge_lex js_le_lex)

lemma detect_examples:
  "detectPlateType ''AA'' = UNIVERSITY
    \<and> detectPlateType ''A'' = POLICE
    \<and> detectPlateType ''AAA'' = POLICE
    \<and> detectPlateType ''JAA'' = GENDARMERIE
    \<and> detectPlateType ''SGH'' = COAST_GUARD
    \<and> detectPlateType ''CD'' = DIPLOMATIC
    \<and> detectPlateType ''CC'' = CONSULATE
    \<and> detectPlateType ''MB'' = FOREIGN
    \<and> detectPlateType ''TAB'' = TAXI
    \<and> detectPlateType ''XY'' = STANDARD"
  by code_simp

text \<open>
  The range of rule 7 written out: a block is FOREIGN exactly when it is the letter
  \<^verbatim>\<open>M\<close> followed by one letter of \<^verbatim>\<open>A-Z\<close>.
\<close>

lemma js_lt_single: "js_lt [x] [y] = (charCode x < charCode y)"
  by auto

lemma js_lt_Cons_diff: "x \<noteq> y \<Longrightarrow> js_lt (x # xs) (y # ys) = (charCode x < charCode y)"
  by simp

lemma charCode_eq_M: "charCode a = 77 \<longleftrightarrow> a = CHR ''M''"
  using charCode_inj [of a "CHR ''M''"] by (simp add: charCode_def)

lemma in_MA_MZ:
  "js_ge [a, b] ''MA'' \<and> js_le [a, b] ''MZ'' \<longleftrightarrow> a = CHR ''M'' \<and> is_AZ b"
proof (cases "a = CHR ''M''")
  case True
  have A: "charCode CHR ''A'' = 65" and Z: "charCode CHR ''Z'' = 90"
    by (simp_all add: charCode_def)
  have "js_lt [a, b] ''MA'' = js_lt [b] ''A''" "js_lt ''MZ'' [a, b] = js_lt ''Z'' [b]"
    unfolding True by (simp_all only: js_lt.simps if_True simp_thms)
  then have "js_lt [a, b] ''MA'' = (charCode b < 65)" "js_lt ''MZ'' [a, b] = (90 < charCode b)"
    by (simp_all only: js_lt_single A Z)
  then show ?thesis using True
    by (simp only: js_ge_def js_le_def is_AZ_def not_less simp_thms)
next
  case False
  have M: "charCode CHR ''M'' = 77" by (simp add: charCode_def)
  from False have ne: "charCode a \<noteq> 77" by (simp only: charCode_eq_M not_False_eq_True)
  have "js_lt [a, b] ''MA'' = (charCode a < 77)"
    using js_lt_Cons_diff [OF False, of "[b]" "''A''"] by (simp only: M)
  moreover from False have "js_lt ''MZ'' [a, b] = (77 < charCode a)"
    using js_lt_Cons_diff [of "CHR ''M''" a "''Z''" "[b]"] by (simp only: M) metis
  ultimately show ?thesis using False ne
    by (simp only: js_ge_def js_le_def) auto
qed

lemma foreign_range:
  "detectPlateType ls = FOREIGN \<longleftrightarrow> (\<exists>c. ls = [CHR ''M'', c] \<and> is_AZ c)"
proof (cases "length ls = 2")
  case True
  then obtain a b where ls: "ls = [a, b]"
    by (cases ls; cases "tl ls") auto
  have "detectPlateType [a, b] = FOREIGN \<longleftrightarrow> js_ge [a, b] ''MA'' \<and> js_le [a, b] ''MZ''"
  proof (cases "js_ge [a, b] ''MA'' \<and> js_le [a, b] ''MZ''")
    case r: True
    then have "a = CHR ''M''" by (simp only: in_MA_MZ)
    then have "[a, b] \<noteq> ''AA''" "[a, b] \<noteq> ''A''" "[a, b] \<noteq> ''AAA''" "[a, b] \<noteq> ''JAA''"
       "[a, b] \<noteq> ''SGH''" "[a, b] \<noteq> ''CD''" "[a, b] \<noteq> ''CC''" by simp_all
    then have "detectPlateType [a, b] = FOREIGN"
      using r by (simp add: detectPlateType_def del: js_lt.simps)
    with r show ?thesis by simp
  next
    case r: False
    then have "detectPlateType [a, b] \<noteq> FOREIGN"
      by (simp add: detectPlateType_def del: js_lt.simps; blast)
    with r show ?thesis by simp
  qed
  then show ?thesis unfolding ls in_MA_MZ by blast
next
  case False
  then have "detectPlateType ls \<noteq> FOREIGN"
    unfolding detectPlateType_def by (simp split: if_splits)
  moreover from False have "\<not> (\<exists>c. ls = [CHR ''M'', c] \<and> is_AZ c)" by auto
  ultimately show ?thesis by blast
qed

text \<open>
  The range of rule 8 on a block of letters: it is TAXI exactly when it has three
  letters, the first \<^verbatim>\<open>T\<close> and the second one of \<^verbatim>\<open>A-K\<close>.
\<close>

lemma charCode_eq_T: "charCode a = 84 \<longleftrightarrow> a = CHR ''T''"
  using charCode_inj [of a "CHR ''T''"] by (simp add: charCode_def)

lemma js_lt_Cons_same: "js_lt (x # xs) (x # ys) = js_lt xs ys"
  by simp

lemma in_TAA_TKZ:
  assumes "is_AZ b" "is_AZ c"
  shows "js_ge [a, b, c] ''TAA'' \<and> js_le [a, b, c] ''TKZ'' \<longleftrightarrow> a = CHR ''T'' \<and> charCode b \<le> 75"
proof (cases "a = CHR ''T''")
  case True
  have A: "charCode CHR ''A'' = 65" and Z: "charCode CHR ''Z'' = 90"
    and K: "charCode CHR ''K'' = 75"
    by (simp_all add: charCode_def)
  have b: "65 \<le> charCode b" "charCode b \<le> 90" and c: "65 \<le> charCode c" "charCode c \<le> 90"
    using assms by (simp_all add: is_AZ_def)
  have ge: "\<not> js_lt [b, c] ''AA''"
  proof (cases "b = CHR ''A''")
    case True
    then show ?thesis using c by (simp add: A)
  next
    case False
    then show ?thesis using b by (simp add: A)
  qed
  have le: "\<not> js_lt ''KZ'' [b, c] \<longleftrightarrow> charCode b \<le> 75"
  proof (cases "b = CHR ''K''")
    case True
    then show ?thesis using c by (auto simp: K Z)
  next
    case False
    then have "charCode b \<noteq> 75" using charCode_inj [of b "CHR ''K''"] by (simp add: K)
    with False show ?thesis by (auto simp: K)
  qed
  have "js_lt [a, b, c] ''TAA'' = js_lt [b, c] ''AA''" "js_lt ''TKZ'' [a, b, c] = js_lt ''KZ'' [b, c]"
    unfolding True by (simp_all only: js_lt_Cons_same)
  then show ?thesis using True ge le
    by (simp only: js_ge_def js_le_def simp_thms)
next
  case False
  have T: "charCode CHR ''T'' = 84" by (simp add: charCode_def)
  from False have ne: "charCode a \<noteq> 84" by (simp only: charCode_eq_T not_False_eq_True)
  have "js_lt [a, b, c] ''TAA'' = (charCode a < 84)"
    using js_lt_Cons_diff [OF False, of "[b, c]" "''AA''"] by (simp only: T)
  moreover from False have "js_lt ''TKZ'' [a, b, c] = (84 < charCode a)"
    using js_lt_Cons_diff [of "CHR ''T''" a "''KZ''" "[b, c]"] by (simp only: T) metis
  ultimately show ?thesis using False ne
    by (simp only: js_ge_def js_le_def) auto
qed

lemma taxi_range:
  assumes az: "\<forall>c \<in> set ls. is_AZ c"
  shows "detectPlateType ls = TAXI \<longleftrightarrow> (\<exists>b c. ls = [CHR ''T'', b, c] \<and> charCode b \<le> 75)"
proof (cases "length ls = 3")
  case True
  then obtain a b c where ls: "ls = [a, b, c]"
    by (cases ls; cases "tl ls"; cases "tl (tl ls)") auto
  have bc: "is_AZ b" "is_AZ c" using az by (simp_all add: ls)
  note rng = in_TAA_TKZ [OF bc, of a]
  have "detectPlateType [a, b, c] = TAXI \<longleftrightarrow> js_ge [a, b, c] ''TAA'' \<and> js_le [a, b, c] ''TKZ''"
  proof (cases "js_ge [a, b, c] ''TAA'' \<and> js_le [a, b, c] ''TKZ''")
    case r: True
    then have "a = CHR ''T''" by (simp only: rng)
    then have "[a, b, c] \<noteq> ''AA''" "[a, b, c] \<noteq> ''A''" "[a, b, c] \<noteq> ''AAA''"
       "[a, b, c] \<noteq> ''JAA''" "[a, b, c] \<noteq> ''SGH''" "[a, b, c] \<noteq> ''CD''" "[a, b, c] \<noteq> ''CC''"
      by simp_all
    then have "detectPlateType [a, b, c] = TAXI"
      using r by (simp add: detectPlateType_def del: js_lt.simps)
    with r show ?thesis by simp
  next
    case r: False
    then have "detectPlateType [a, b, c] \<noteq> TAXI"
      by (simp add: detectPlateType_def del: js_lt.simps; blast)
    with r show ?thesis by simp
  qed
  then show ?thesis unfolding ls rng by blast
next
  case False
  then have "detectPlateType ls \<noteq> TAXI"
    unfolding detectPlateType_def by (simp split: if_splits)
  moreover from False have "\<not> (\<exists>b c. ls = [CHR ''T'', b, c] \<and> charCode b \<le> 75)" by auto
  ultimately show ?thesis by blast
qed

subsection \<open>Rounding\<close>

text \<open>
  Three facts about \<open>round64\<close>: a value with at most 53 significant bits is not changed;
  a value of at least \<open>2^52\<close> is rounded to a multiple of its unit in the last place; and
  a value of at least 1 stays at least 1 (or becomes \<^verbatim>\<open>Infinity\<close>).
\<close>

lemma roundHalfEven_of_int: "roundHalfEven (of_int z) = z"
  by (simp add: roundHalfEven_def)

lemma roundHalfEven_ge_floor: "\<lfloor>y\<rfloor> \<le> roundHalfEven y"
  by (simp add: roundHalfEven_def Let_def)

lemma round64_exact_scaled:
  assumes k: "x * 2 ^ j = of_nat k * 2 ^ e" and kb: "k < 2 ^ 53" and j: "j \<le> 1074"
    and e: "e \<le> 970"
  shows "round64 x = Fin x"
proof -
  define s :: nat where "s = 1074"
  have js: "j \<le> s" using j by (simp add: s_def)
  have x: "x = of_nat k * 2 ^ e / 2 ^ j"
    using k by (simp add: field_simps)
  have x0: "0 \<le> x" unfolding x by simp
  define N where "N = k * 2 ^ (e + (s - j))"
  have pw: "(2::rat) ^ s = 2 ^ j * 2 ^ (s - j)"
    using js by (simp add: power_add [symmetric])
  have y: "\<bar>x\<bar> * 2 ^ s = of_nat N"
    using x0 by (simp add: x N_def pw power_add)
  have "int N < 2 ^ (53 + (e + (s - j)))"
  proof -
    have "N < 2 ^ 53 * 2 ^ (e + (s - j))" unfolding N_def using kb by simp
    then have "N < 2 ^ (53 + (e + (s - j)))" by (simp add: power_add)
    then have "int N < int (2 ^ (53 + (e + (s - j))))" by (simp only: of_nat_less_iff)
    then show ?thesis by simp
  qed
  then have bl: "bitlen (int N) \<le> int (53 + (e + (s - j)))"
    by (simp only: bitlen_le_iff_power nat_int) simp
  define q where "q = nat (bitlen (int N) - 53)"
  have q: "q \<le> e + (s - j)" using bl by (simp add: q_def)
  define N' where "N' = k * 2 ^ (e + (s - j) - q)"
  have NN': "N = N' * 2 ^ q"
  proof -
    have "(2::nat) ^ (e + (s - j)) = 2 ^ (e + (s - j) - q) * 2 ^ q"
      using q by (simp add: power_add [symmetric])
    then show ?thesis by (simp add: N_def N'_def)
  qed
  have t: "\<bar>x\<bar> * 2 ^ s / 2 ^ q = of_int (int N')"
    unfolding y NN' by simp
  have fl: "\<lfloor>\<bar>x\<bar> * 2 ^ s\<rfloor> = int N" unfolding y by simp
  have r: "of_int (roundHalfEven (\<bar>x\<bar> * 2 ^ s / 2 ^ q)) * 2 ^ q / 2 ^ s = x"
  proof -
    have "of_int (roundHalfEven (\<bar>x\<bar> * 2 ^ s / 2 ^ q)) * (2::rat) ^ q = of_nat N"
      unfolding t roundHalfEven_of_int NN' by simp
    also have "\<dots> = x * 2 ^ s" using y x0 by simp
    finally show ?thesis by simp
  qed
  have "x \<le> x * 2 ^ j" using x0 by (simp add: mult_le_cancel_left1)
  also have "\<dots> = of_nat k * 2 ^ e" by (rule k)
  also have "\<dots> < 2 ^ 53 * 2 ^ e"
  proof -
    have "(of_nat k :: rat) < of_nat (2 ^ 53)" using kb by (simp only: of_nat_less_iff)
    then show ?thesis by simp
  qed
  also have "\<dots> = 2 ^ (53 + e)" by (simp add: power_add)
  also have "(2::rat) ^ (53 + e) \<le> 2 ^ 1024" using e by (intro power_increasing) simp_all
  finally have fin: "\<not> 2 ^ 1024 \<le> x" by simp
  show ?thesis
    unfolding round64_def Let_def s_def [symmetric] fl q_def [symmetric] r
    using fin x0 by (simp only: if_False not_less [symmetric] simp_thms)
qed

lemma round64_exact:
  assumes nat: "x * 2 ^ j \<in> \<nat>" and small: "x * 2 ^ j < 2 ^ 53" and j: "j \<le> 1074"
  shows "round64 x = Fin x"
proof -
  obtain k :: nat where k: "x * 2 ^ j = of_nat k"
    using nat by (auto elim: Nats_cases)
  have "(of_nat k :: rat) < of_nat (2 ^ 53)" using small k by simp
  then have kb: "k < 2 ^ 53" by (simp only: of_nat_less_iff)
  from k have "x * 2 ^ j = of_nat k * 2 ^ 0" by simp
  then show ?thesis using kb j by (rule round64_exact_scaled) simp
qed

lemma round64_large:
  assumes lo: "2 ^ (b - 1) \<le> x" and hi: "x < 2 ^ b" and b: "53 \<le> b"
  shows "round64 x =
           (if (2::rat) ^ 1024 \<le> of_int (roundHalfEven (x / 2 ^ (b - 53))) * 2 ^ (b - 53) then PInf
            else Fin (of_int (roundHalfEven (x / 2 ^ (b - 53))) * 2 ^ (b - 53)))"
proof -
  define s :: nat where "s = 1074"
  have "(0::rat) < 2 ^ (b - 1)" by simp
  then have x0: "0 < x" using lo by (rule less_le_trans)
  then have ax: "\<bar>x\<bar> = x" by simp
  define N where "N = \<lfloor>x * 2 ^ s\<rfloor>"
  have "(2::rat) ^ (b - 1 + s) \<le> x * 2 ^ s" using lo by (simp add: power_add)
  then have "of_int (2 ^ (b - 1 + s)) \<le> x * 2 ^ s" by simp
  then have Nlo: "2 ^ (b - 1 + s) \<le> N" unfolding N_def by (simp only: le_floor_iff)
  have "x * 2 ^ s < 2 ^ (b + s)" using hi by (simp add: power_add)
  then have "x * 2 ^ s < of_int (2 ^ (b + s))" by simp
  then have Nhi: "N < 2 ^ (b + s)" unfolding N_def by (simp only: floor_less_iff)
  have le: "bitlen N \<le> int (b + s)"
    using Nhi by (simp only: bitlen_le_iff_power nat_int) simp
  have "\<not> bitlen N \<le> int (b + s) - 1"
  proof
    assume "bitlen N \<le> int (b + s) - 1"
    then have "N < 2 ^ nat (int (b + s) - 1)" by (simp only: bitlen_le_iff_power)
    moreover have "nat (int (b + s) - 1) = b - 1 + s" using b by simp
    ultimately show False using Nlo by simp
  qed
  with le have bl: "bitlen N = int (b + s)" by simp
  have q: "nat (bitlen N - 53) = (b - 53) + s" using b by (simp add: bl)
  have t: "x * 2 ^ s / 2 ^ ((b - 53) + s) = x / 2 ^ (b - 53)"
    by (simp add: power_add)
  have r: "of_int m * (2::rat) ^ ((b - 53) + s) / 2 ^ s = of_int m * 2 ^ (b - 53)" for m
    by (simp add: power_add)
  show ?thesis
    unfolding round64_def Let_def s_def [symmetric] ax N_def [symmetric] q t r
    using x0 by simp
qed

lemma round64_ge1:
  assumes x1: "1 \<le> x"
  shows "round64 x = PInf \<or> (\<exists>y. round64 x = Fin y \<and> 1 \<le> y)"
proof -
  define s :: nat where "s = 1074"
  have s52: "52 \<le> s" by (simp add: s_def)
  define N where "N = \<lfloor>\<bar>x\<bar> * 2 ^ s\<rfloor>"
  define q where "q = nat (bitlen N - 53)"
  define m where "m = roundHalfEven (\<bar>x\<bar> * 2 ^ s / 2 ^ q)"
  define r :: rat where "r = of_int m * 2 ^ q / 2 ^ s"
  have ax: "\<bar>x\<bar> = x" using x1 by simp
  have y: "(2::rat) ^ s \<le> \<bar>x\<bar> * 2 ^ s"
    using x1 by (simp add: ax)
  have Ns: "2 ^ s \<le> N"
  proof -
    have "of_int (2 ^ s) \<le> \<bar>x\<bar> * 2 ^ s" using y by simp
    then show ?thesis unfolding N_def by (simp only: le_floor_iff)
  qed
  moreover have "(0::int) < 2 ^ s" by simp
  ultimately have N0: "0 < N" by linarith
  note bb = bitlen_bounds [OF N0]
  have "(2::int) ^ s < 2 ^ nat (bitlen N)" using Ns bb by linarith
  then have sb: "s < nat (bitlen N)" by (simp only: power_strict_increasing_iff)
  then have qs: "s \<le> q + 52" and q1: "nat (bitlen N - 1) = q + 52"
    using s52 by (simp_all add: q_def)
  have "(2::int) ^ (q + 52) \<le> N" using bb q1 by simp
  then have "of_int ((2::int) ^ (q + 52)) \<le> (of_int N :: rat)" by (simp only: of_int_le_iff)
  also have "of_int N \<le> \<bar>x\<bar> * 2 ^ s" unfolding N_def by (rule of_int_floor_le)
  finally have "(2::rat) ^ 52 * 2 ^ q \<le> \<bar>x\<bar> * 2 ^ s"
    by (simp add: power_add mult.commute)
  then have "(2::rat) ^ 52 \<le> \<bar>x\<bar> * 2 ^ s / 2 ^ q"
    by (simp add: pos_le_divide_eq)
  then have "of_int (2 ^ 52) \<le> \<bar>x\<bar> * 2 ^ s / 2 ^ q" by simp
  then have "2 ^ 52 \<le> \<lfloor>\<bar>x\<bar> * 2 ^ s / 2 ^ q\<rfloor>" by (simp only: le_floor_iff)
  also have "\<dots> \<le> m" unfolding m_def by (rule roundHalfEven_ge_floor)
  finally have m52: "2 ^ 52 \<le> m" .
  have "(2::rat) ^ s \<le> 2 ^ (q + 52)" using qs by (intro power_increasing) simp_all
  also have "\<dots> = 2 ^ 52 * 2 ^ q" by (simp add: power_add mult.commute)
  also have "\<dots> \<le> of_int m * 2 ^ q"
  proof -
    have "(of_int (2 ^ 52) :: rat) \<le> of_int m" using m52 by (simp only: of_int_le_iff)
    then show ?thesis by (intro mult_right_mono) simp_all
  qed
  finally have r1: "1 \<le> r" unfolding r_def by (simp add: pos_le_divide_eq)
  have eq: "round64 x = (if 2 ^ 1024 \<le> r then (if 0 < x then PInf else NInf)
                          else Fin (if x < 0 then - r else r))"
    unfolding round64_def Let_def s_def [symmetric] N_def [symmetric] q_def [symmetric]
      m_def [symmetric] r_def [symmetric] ..
  show ?thesis
  proof (cases "2 ^ 1024 \<le> r")
    case True
    then show ?thesis using x1 unfolding eq by simp
  next
    case False
    then have "round64 x = Fin r" using x1 unfolding eq by simp
    then show ?thesis using r1 by blast
  qed
qed

lemma ge1_Fin [simp]: "ge1 (Fin q) = (1 \<le> q)"
  by (simp add: ge1_def)

lemma ge0_Fin [simp]: "ge0 (Fin q) = (0 \<le> q)"
  by (simp add: ge0_def)

lemma ge1_round64: "1 \<le> x \<Longrightarrow> ge1 (round64 x)"
  using round64_ge1 [of x] by (auto simp: ge1_def)

lemma ge1_ge0: "ge1 v \<Longrightarrow> ge0 v"
  by (cases v) (simp_all add: ge1_def ge0_def)

lemma ge1_fmul: "ge1 a \<Longrightarrow> ge1 b \<Longrightarrow> ge1 (fmul a b)"
proof (cases a; cases b)
  fix p q assume "ge1 a" "ge1 b" "a = Fin p" "b = Fin q"
  then have "1 * 1 \<le> p * q" by (intro mult_mono) simp_all
  then show "ge1 (fmul a b)" using \<open>a = Fin p\<close> \<open>b = Fin q\<close> by (simp add: ge1_round64)
qed (auto simp: ge1_def)

lemma ge1_fadd: "ge1 a \<Longrightarrow> ge0 b \<Longrightarrow> ge1 (fadd a b)"
  by (cases a; cases b) (auto simp: ge1_def ge0_def intro: ge1_round64 [unfolded ge1_def])

lemma ge1_fadd': "ge0 a \<Longrightarrow> ge1 b \<Longrightarrow> ge1 (fadd a b)"
  by (cases a; cases b) (auto simp: ge1_def ge0_def intro: ge1_round64 [unfolded ge1_def])

lemma ge1_not_NaN: "ge1 v \<Longrightarrow> v \<noteq> NaN"
  by (auto simp: ge1_def)

subsection \<open>Where the arithmetic is exact\<close>

lemma fmul_exact:
  "a * b * 2 ^ j \<in> \<nat> \<Longrightarrow> a * b * 2 ^ j < 2 ^ 53 \<Longrightarrow> j \<le> 1074
   \<Longrightarrow> fmul (Fin a) (Fin b) = Fin (a * b)"
  by (simp add: round64_exact)

lemma fadd_exact:
  "(a + b) * 2 ^ j \<in> \<nat> \<Longrightarrow> (a + b) * 2 ^ j < 2 ^ 53 \<Longrightarrow> j \<le> 1074
   \<Longrightarrow> fadd (Fin a) (Fin b) = Fin (a + b)"
  by (simp add: round64_exact)

lemma round64_of_nat: "n < 2 ^ 53 \<Longrightarrow> round64 (of_nat n) = Fin (of_nat n)"
proof -
  assume "n < 2 ^ 53"
  then have "(of_nat n :: rat) < of_nat (2 ^ 53)" by (simp only: of_nat_less_iff)
  then have small: "(of_nat n :: rat) * 2 ^ 0 < 2 ^ 53" by simp
  have nat: "(of_nat n :: rat) * 2 ^ 0 \<in> \<nat>" by simp
  show ?thesis by (rule round64_exact [OF nat small]) simp
qed

text \<open>The position of a letter is a natural number from 1 to 26.\<close>

lemma is_AZ_position: "is_AZ c \<Longrightarrow> 1 \<le> letterPosition c \<and> letterPosition c \<le> 26"
  by (simp add: is_AZ_def letterPosition_def)

lemma is_AZ_position_nat: "is_AZ c \<Longrightarrow> letterPosition c \<in> \<nat>"
proof -
  assume "is_AZ c"
  then have "letterPosition c = of_nat (charCode c - 64)"
    by (simp add: is_AZ_def letterPosition_def of_nat_diff)
  then show ?thesis by simp
qed

lemma letterProduct_nat:
  "\<forall>c \<in> set ls. is_AZ c \<Longrightarrow> prod_list (map letterPosition ls) \<in> \<nat>"
  by (induction ls) (simp_all add: is_AZ_position_nat Nats_mult)

lemma letterProduct_bounds:
  "\<forall>c \<in> set ls. is_AZ c \<Longrightarrow>
   1 \<le> prod_list (map letterPosition ls) \<and> prod_list (map letterPosition ls) \<le> 26 ^ length ls"
proof (induction ls)
  case Nil
  show ?case by simp
next
  case (Cons c ls)
  then have ih: "1 \<le> prod_list (map letterPosition ls)"
      "prod_list (map letterPosition ls) \<le> 26 ^ length ls"
    and c: "1 \<le> letterPosition c" "letterPosition c \<le> 26"
    by (simp_all add: is_AZ_position)
  have "1 * 1 \<le> letterPosition c * prod_list (map letterPosition ls)"
    using ih(1) c(1) by (intro mult_mono) simp_all
  moreover have "letterPosition c * prod_list (map letterPosition ls) \<le> 26 * 26 ^ length ls"
    using ih c by (intro mult_mono) simp_all
  ultimately show ?case by simp
qed

lemma letterSum_fold_exact:
  assumes "\<forall>c \<in> set ls. is_AZ c" and "acc \<in> \<nat>" and "acc * 26 ^ length ls < 2 ^ 53"
  shows "foldl (\<lambda>acc c. if letterPosition c \<ge> 1 \<and> letterPosition c \<le> 26
              then fmul acc (Fin (letterPosition c)) else acc) (Fin acc) ls
         = Fin (acc * prod_list (map letterPosition ls))"
  using assms
proof (induction ls arbitrary: acc)
  case Nil
  show ?case by simp
next
  case (Cons c ls)
  have c: "1 \<le> letterPosition c" "letterPosition c \<le> 26" "letterPosition c \<in> \<nat>"
    using Cons.prems(1) by (simp_all add: is_AZ_position is_AZ_position_nat)
  have a0: "0 \<le> acc" using Cons.prems(2) by (auto elim: Nats_cases)
  have nat: "acc * letterPosition c \<in> \<nat>"
    using Cons.prems(2) c(3) by (rule Nats_mult)
  have le: "acc * letterPosition c \<le> acc * 26"
    using c(2) a0 by (intro mult_left_mono)
  have bound: "acc * letterPosition c * 26 ^ length ls < 2 ^ 53"
  proof -
    have "acc * letterPosition c * 26 ^ length ls \<le> acc * 26 * 26 ^ length ls"
      using le by (intro mult_right_mono) simp_all
    also have "\<dots> < 2 ^ 53" using Cons.prems(3) by (simp add: mult.assoc)
    finally show ?thesis .
  qed
  have "0 \<le> acc * letterPosition c" using a0 c(1) by simp
  then have "acc * letterPosition c * 1 \<le> acc * letterPosition c * 26 ^ length ls"
    by (intro mult_left_mono) simp_all
  then have "acc * letterPosition c \<le> acc * letterPosition c * 26 ^ length ls" by simp
  then have small: "acc * letterPosition c * 2 ^ 0 < 2 ^ 53" using bound by simp
  have step: "fmul (Fin acc) (Fin (letterPosition c)) = Fin (acc * letterPosition c)"
    by (rule fmul_exact [where j = 0]) (use nat small in simp_all)
  have "foldl (\<lambda>acc c. if letterPosition c \<ge> 1 \<and> letterPosition c \<le> 26
              then fmul acc (Fin (letterPosition c)) else acc) (Fin (acc * letterPosition c)) ls
        = Fin (acc * letterPosition c * prod_list (map letterPosition ls))"
    using Cons.prems(1) nat bound by (intro Cons.IH) simp_all
  then show ?case using c step by (simp add: mult.assoc)
qed

lemma letterSum_exact:
  assumes "\<forall>c \<in> set ls. is_AZ c" and "length ls \<le> 11"
  shows "letterSum ls = Fin (prod_list (map letterPosition ls))"
proof -
  have "(26::rat) ^ length ls \<le> 26 ^ 11"
    using assms(2) by (intro power_increasing) simp_all
  also have "\<dots> < 2 ^ 53" by simp
  finally have "1 * (26::rat) ^ length ls < 2 ^ 53" by simp
  with assms(1) have "foldl (\<lambda>acc c. if letterPosition c \<ge> 1 \<and> letterPosition c \<le> 26
              then fmul acc (Fin (letterPosition c)) else acc) (Fin 1) ls
         = Fin (1 * prod_list (map letterPosition ls))"
    by (intro letterSum_fold_exact) simp_all
  then show ?thesis by (simp add: letterSum_def)
qed

text \<open>On letters the guard of the loop is always true: the loop is the plain product.\<close>

lemma letterSum_unguarded:
  "\<forall>c \<in> set ls. is_AZ c \<Longrightarrow>
   foldl (\<lambda>acc c. if letterPosition c \<ge> 1 \<and> letterPosition c \<le> 26
              then fmul acc (Fin (letterPosition c)) else acc) acc ls
   = foldl (\<lambda>acc c. fmul acc (Fin (letterPosition c))) acc ls"
  by (induction ls arbitrary: acc) (simp_all add: is_AZ_position)

lemma letterPatternScore_cases: "letterPatternScore pt ls \<in> {1, 5, 10, 20, 7.5}"
  by (simp add: letterPatternScore_def repeatingOrSequential_def allSameBoost_def Let_def)

lemma letterScore_exact:
  assumes az: "\<forall>c \<in> set ls. is_AZ c" and len: "length ls \<le> 11"
  shows "fadd (Fin (letterPatternScore pt ls)) (letterSum ls)
         = Fin (letterPatternScore pt ls + prod_list (map letterPosition ls))"
proof -
  let ?P = "prod_list (map letterPosition ls)"
  let ?b = "letterPatternScore pt ls"
  have P: "?P \<in> \<nat>" using az by (rule letterProduct_nat)
  have "?P \<le> 26 ^ length ls" using az letterProduct_bounds by blast
  also have "(26::rat) ^ length ls \<le> 26 ^ 11"
    using len by (intro power_increasing) simp_all
  finally have Pb: "?P \<le> 26 ^ 11" .
  have b2: "?b * 2 \<in> \<nat>" and bb: "?b \<le> 20"
    using letterPatternScore_cases [of pt ls] by auto
  have "(?b + ?P) * 2 = ?b * 2 + ?P * 2" by (simp add: algebra_simps)
  moreover have "?P * 2 \<in> \<nat>" using P by (intro Nats_mult) simp_all
  ultimately have nat: "(?b + ?P) * 2 ^ 1 \<in> \<nat>" using b2 by (simp add: Nats_add)
  have "(?b + ?P) * 2 ^ 1 \<le> (20 + 26 ^ 11) * 2" using bb Pb by simp
  also have "\<dots> < 2 ^ 53" by simp
  finally have small: "(?b + ?P) * 2 ^ 1 < 2 ^ 53" .
  show ?thesis
    unfolding letterSum_exact [OF az len]
    by (rule fadd_exact [OF nat small]) simp
qed

subsection \<open>The score, field by field\<close>

lemma score_parsed: "parsed (calculatePlateScore t) = parseTurkishPlate t"
  by (simp add: calculatePlateScore_def Let_def)

lemma score_plateType:
  "plateType (calculatePlateScore t) = detectPlateType (ParsedPlate.letters (parseTurkishPlate t))"
  by (simp add: calculatePlateScore_def Let_def)

lemma score_province:
  "province (breakdown (calculatePlateScore t)) =
     js_or (lookup provinceTiers (provinceCode (parseTurkishPlate t)))
           (the (lookup provinceTiers ''default''))"
  by (simp add: calculatePlateScore_def Let_def)

lemma score_letters:
  "ScoreBreakdown.letters (breakdown (calculatePlateScore t)) =
     fadd (Fin (letterPatternScore (detectPlateType (ParsedPlate.letters (parseTurkishPlate t)))
                  (ParsedPlate.letters (parseTurkishPlate t))))
          (letterSum (ParsedPlate.letters (parseTurkishPlate t)))"
  by (simp add: calculatePlateScore_def Let_def)

lemma score_digits:
  "ScoreBreakdown.digits (breakdown (calculatePlateScore t)) =
     Fin (digitScore (js_or (Some (parseInt (ParsedPlate.digits (parseTurkishPlate t)))) (Fin 1)))"
  by (simp add: calculatePlateScore_def Let_def)

lemma score_digitsum:
  "digitsum (breakdown (calculatePlateScore t)) = digitSum (ParsedPlate.digits (parseTurkishPlate t))"
  by (simp add: calculatePlateScore_def Let_def)

lemma score_special:
  "special (breakdown (calculatePlateScore t)) =
     js_or (lookup specialPlateTypes (detectPlateType (ParsedPlate.letters (parseTurkishPlate t))))
           (Fin 1)"
  by (simp add: calculatePlateScore_def Let_def)

lemma score_total:
  "totalScore (calculatePlateScore t) =
     fmul (fmul (fmul (fadd (ScoreBreakdown.letters (breakdown (calculatePlateScore t)))
                            (digitsum (breakdown (calculatePlateScore t))))
                      (ScoreBreakdown.digits (breakdown (calculatePlateScore t))))
                (province (breakdown (calculatePlateScore t))))
          (special (breakdown (calculatePlateScore t)))"
  by (simp add: calculatePlateScore_def Let_def)

subsection \<open>The digit block\<close>

text \<open>
  What the loop of lines 229-231 adds for a digit: its value, except that the digit
  \<^verbatim>\<open>0\<close> adds 1, since \<^verbatim>\<open>parseInt("0") || 1\<close> is 1.
\<close>

lemma digitValue_le9: "is_digit c \<Longrightarrow> digitValue c \<le> 9"
  unfolding is_digit_def digitValue_def by linarith

lemma parseInt_digit: "is_digit c \<Longrightarrow> parseInt [c] = Fin (of_nat (digitValue c))"
proof -
  assume c: "is_digit c"
  then have "digitValue c < 2 ^ 53" using digitValue_le9 [OF c] by simp
  then show ?thesis using c by (simp add: parseInt_def decimalValue_def round64_of_nat)
qed

lemma digit_or_one:
  "is_digit c \<Longrightarrow> js_or (Some (parseInt [c])) (Fin 1) = Fin (of_nat (zeroAsOne c))"
  by (simp add: parseInt_digit js_or_def zeroAsOne_def)

lemma zeroAsOne_bounds: "is_digit c \<Longrightarrow> 1 \<le> zeroAsOne c \<and> zeroAsOne c \<le> 9"
  using digitValue_le9 [of c] by (simp add: zeroAsOne_def)

lemma digitSum_fold_exact:
  assumes "\<forall>c \<in> set ds. is_digit c" and "a + 9 * length ds < 2 ^ 53"
  shows "foldl (\<lambda>acc c. fadd acc (js_or (Some (parseInt [c])) (Fin 1))) (Fin (of_nat a)) ds
         = Fin (of_nat (a + sum_list (map zeroAsOne ds)))"
  using assms
proof (induction ds arbitrary: a)
  case Nil
  show ?case by simp
next
  case (Cons c ds)
  have c: "is_digit c" using Cons.prems(1) by simp
  have z: "zeroAsOne c \<le> 9" using zeroAsOne_bounds [OF c] by simp
  then have small: "a + zeroAsOne c < 2 ^ 53" using Cons.prems(2) by simp
  have "fadd (Fin (of_nat a)) (Fin (of_nat (zeroAsOne c))) = round64 (of_nat (a + zeroAsOne c))"
    by simp
  also have "\<dots> = Fin (of_nat (a + zeroAsOne c))" using small by (rule round64_of_nat)
  finally have step: "fadd (Fin (of_nat a)) (js_or (Some (parseInt [c])) (Fin 1))
                      = Fin (of_nat (a + zeroAsOne c))"
    by (simp only: digit_or_one [OF c])
  have "(a + zeroAsOne c) + 9 * length ds < 2 ^ 53" using z Cons.prems(2) by simp
  with Cons.prems(1)
  have "foldl (\<lambda>acc c. fadd acc (js_or (Some (parseInt [c])) (Fin 1)))
          (Fin (of_nat (a + zeroAsOne c))) ds
        = Fin (of_nat ((a + zeroAsOne c) + sum_list (map zeroAsOne ds)))"
    by (intro Cons.IH) simp_all
  then show ?case by (simp only: foldl_Cons step list.map sum_list.Cons add.assoc)
qed

lemma digitSum_exact:
  assumes "\<forall>c \<in> set ds. is_digit c" and "9 * length ds < 2 ^ 53"
  shows "digitSum ds = Fin (of_nat (sum_list (map zeroAsOne ds)))"
proof -
  have "foldl (\<lambda>acc c. fadd acc (js_or (Some (parseInt [c])) (Fin 1))) (Fin (of_nat 0)) ds
         = Fin (of_nat (0 + sum_list (map zeroAsOne ds)))"
    using assms by (intro digitSum_fold_exact) simp_all
  then show ?thesis by (simp add: digitSum_def)
qed

lemma zeroAsOne_sum_le: "\<forall>c \<in> set ds. is_digit c \<Longrightarrow> sum_list (map zeroAsOne ds) \<le> 9 * length ds"
proof (induction ds)
  case Nil
  show ?case by simp
next
  case (Cons c ds)
  then have "zeroAsOne c \<le> 9" "sum_list (map zeroAsOne ds) \<le> 9 * length ds"
    using zeroAsOne_bounds [of c] by simp_all
  then show ?case by simp
qed

text \<open>The value of a block of \<open>n\<close> digits is below \<open>10^n\<close>.\<close>

lemma decimal_fold_bound:
  "\<forall>c \<in> set ds. is_digit c \<Longrightarrow>
   foldl (\<lambda>acc c. 10 * acc + digitValue c) a ds < (a + 1) * 10 ^ length ds"
proof (induction ds arbitrary: a)
  case Nil
  show ?case by simp
next
  case (Cons c ds)
  then have c: "digitValue c \<le> 9" using digitValue_le9 [of c] by simp
  have "foldl (\<lambda>acc c. 10 * acc + digitValue c) (10 * a + digitValue c) ds
        < (10 * a + digitValue c + 1) * 10 ^ length ds"
    using Cons.prems by (intro Cons.IH) simp
  also have "\<dots> \<le> (10 * (a + 1)) * 10 ^ length ds"
    using c by (intro mult_right_mono) simp_all
  finally show ?case by (simp add: algebra_simps)
qed

lemma decimalValue_bound:
  "\<forall>c \<in> set ds. is_digit c \<Longrightarrow> decimalValue ds < 10 ^ length ds"
  using decimal_fold_bound [of ds 0] by (simp add: decimalValue_def)

lemma numDigits_exact:
  assumes dig: "\<forall>c \<in> set ds. is_digit c" and len: "length ds \<le> 15"
  shows "js_or (Some (parseInt ds)) (Fin 1)
         = Fin (if decimalValue ds = 0 then 1 else of_nat (decimalValue ds))"
proof (cases "ds = []")
  case True
  then show ?thesis by (simp add: parseInt_def js_or_def decimalValue_def)
next
  case False
  have tw: "takeWhile is_digit ds = ds" using dig by simp
  have "decimalValue ds < 10 ^ length ds" using dig by (rule decimalValue_bound)
  also have "(10::nat) ^ length ds \<le> 10 ^ 15" using len by (intro power_increasing) simp_all
  also have "(10::nat) ^ 15 < 2 ^ 53" by simp
  finally have "round64 (of_nat (decimalValue ds)) = Fin (of_nat (decimalValue ds))"
    by (rule round64_of_nat)
  then have "parseInt ds = Fin (of_nat (decimalValue ds))"
    using False by (simp add: parseInt_def tw)
  then show ?thesis by (simp add: js_or_def)
qed

subsection \<open>The table factors\<close>

lemma js_or_lookup: "js_or (lookup table k) (Fin d) = Fin (tableOr (map_of table k) d)"
  by (cases "map_of table k") (simp_all add: js_or_def lookup_def tableOr_def)

lemma provinceTiers_default: "the (map_of provinceTiers ''default'') = 1"
  by (simp add: provinceTiers_def)

lemma lookup_default: "the (lookup provinceTiers ''default'') = Fin 1"
  by (simp add: lookup_def provinceTiers_def)

lemma provinceScore_exact:
  "js_or (lookup provinceTiers k) (the (lookup provinceTiers ''default''))
   = Fin (tableOr (map_of provinceTiers k) (the (map_of provinceTiers ''default'')))"
  by (simp only: lookup_default provinceTiers_default js_or_lookup)

lemma provinceTiers_values:
  "map_of provinceTiers k = Some v \<Longrightarrow> k \<noteq> ''default'' \<Longrightarrow> v \<in> {1.5, 2.5, 5, 10}"
  by (drule map_of_SomeD) (auto simp: provinceTiers_def)

lemma provinceTiers_all_values:
  "map_of provinceTiers k = Some v \<Longrightarrow> v \<in> {1, 1.5, 2.5, 5, 10}"
  by (drule map_of_SomeD) (auto simp: provinceTiers_def)

lemma provinceScore_cases: "tableOr (map_of provinceTiers k) 1 \<in> {1, 1.5, 2.5, 5, 10}"
proof (cases "map_of provinceTiers k")
  case None
  then show ?thesis by (simp add: tableOr_def)
next
  case (Some v)
  then show ?thesis using provinceTiers_all_values [OF Some] by (auto simp: tableOr_def)
qed

lemma specialScore_cases: "tableOr (map_of specialPlateTypes pt) 1 \<in> {1, 15, 20, 25, 30}"
  by (cases pt) (simp_all add: specialPlateTypes_def tableOr_def)

lemma digitScore_cases: "digitScore n \<in> {1, 2.5, 5, 10}"
  by (simp add: digitScore_def)

subsection \<open>Short plates: the binary64 score is the exact score\<close>

lemma total_exact:
  assumes L2: "L * 2 \<in> \<nat>" and S: "S \<in> \<nat>" and Lb: "L \<le> 20 + 26 ^ 3" and Sb: "S \<le> 36"
    and T: "T \<in> {1, 2.5, 5, 10}" and V: "V \<in> {1, 1.5, 2.5, 5, 10}"
    and W: "W \<in> {1, 15, 20, 25, 30}"
  shows "fmul (fmul (fmul (fadd (Fin L) (Fin S)) (Fin T)) (Fin V)) (Fin W)
         = Fin ((L + S) * T * V * W)"
proof -
  have T2: "T * 2 \<in> \<nat>" and T0: "0 \<le> T" and Tb: "T \<le> 10" using T by auto
  have V2: "V * 2 \<in> \<nat>" and V0: "0 \<le> V" and Vb: "V \<le> 10" using V by auto
  have W1: "W \<in> \<nat>" and W0: "0 \<le> W" and Wb: "W \<le> 30" using W by auto
  have L0: "0 \<le> L"
  proof -
    from L2 have "0 \<le> L * 2" by (auto elim: Nats_cases)
    then show ?thesis by simp
  qed
  have S0: "0 \<le> S" using S by (auto elim: Nats_cases)
  define h where "h = L + S"
  define x1 where "x1 = h * T"
  define x2 where "x2 = x1 * V"
  define x3 where "x3 = x2 * W"
  have h0: "0 \<le> h" and hb: "h \<le> 17632" using L0 S0 Lb Sb by (simp_all add: h_def)
  have "h * 2 = L * 2 + S * 2" by (simp add: h_def algebra_simps)
  moreover have "S * 2 \<in> \<nat>" using S by (intro Nats_mult) simp_all
  ultimately have h2: "h * 2 \<in> \<nat>" using L2 by (simp add: Nats_add)
  have x10: "0 \<le> x1" using h0 T0 by (simp add: x1_def)
  have x1b: "x1 \<le> 17632 * 10" unfolding x1_def using hb Tb h0 T0 by (intro mult_mono) simp_all
  have "x1 * 4 = (h * 2) * (T * 2)" by (simp add: x1_def)
  then have x14: "x1 * 4 \<in> \<nat>" using h2 T2 by (simp only: Nats_mult)
  have x20: "0 \<le> x2" using x10 V0 by (simp add: x2_def)
  have x2b: "x2 \<le> 176320 * 10" unfolding x2_def using x1b Vb x10 V0 by (intro mult_mono) simp_all
  have "x2 * 8 = (x1 * 4) * (V * 2)" by (simp add: x2_def)
  then have x28: "x2 * 8 \<in> \<nat>" using x14 V2 by (simp only: Nats_mult)
  have x3b: "x3 \<le> 1763200 * 30" unfolding x3_def using x2b Wb x20 W0 by (intro mult_mono) simp_all
  have "x3 * 8 = (x2 * 8) * W" by (simp add: x3_def)
  then have x38: "x3 * 8 \<in> \<nat>" using x28 W1 by (simp only: Nats_mult)
  have a: "fadd (Fin L) (Fin S) = Fin (L + S)"
  proof (rule fadd_exact [where j = 1])
    have "h * 2 ^ 1 \<in> \<nat>" using h2 by simp
    then show "(L + S) * 2 ^ 1 \<in> \<nat>" by (simp only: h_def)
    have "h * 2 ^ 1 < 2 ^ 53" using hb by simp
    then show "(L + S) * 2 ^ 1 < 2 ^ 53" by (simp only: h_def)
  qed simp
  have b: "fmul (Fin h) (Fin T) = Fin (h * T)"
  proof (rule fmul_exact [where j = 2])
    have "x1 * 2 ^ 2 \<in> \<nat>" using x14 by simp
    then show "h * T * 2 ^ 2 \<in> \<nat>" by (simp only: x1_def)
    have "x1 * 2 ^ 2 < 2 ^ 53" using x1b by simp
    then show "h * T * 2 ^ 2 < 2 ^ 53" by (simp only: x1_def)
  qed simp
  have c: "fmul (Fin x1) (Fin V) = Fin (x1 * V)"
  proof (rule fmul_exact [where j = 3])
    have "x2 * 2 ^ 3 \<in> \<nat>" using x28 by simp
    then show "x1 * V * 2 ^ 3 \<in> \<nat>" by (simp only: x2_def)
    have "x2 * 2 ^ 3 < 2 ^ 53" using x2b by simp
    then show "x1 * V * 2 ^ 3 < 2 ^ 53" by (simp only: x2_def)
  qed simp
  have d: "fmul (Fin x2) (Fin W) = Fin (x2 * W)"
  proof (rule fmul_exact [where j = 3])
    have "x3 * 2 ^ 3 \<in> \<nat>" using x38 by simp
    then show "x2 * W * 2 ^ 3 \<in> \<nat>" by (simp only: x3_def)
    have "x3 * 2 ^ 3 < 2 ^ 53" using x3b by simp
    then show "x2 * W * 2 ^ 3 < 2 ^ 53" by (simp only: x3_def)
  qed simp
  have "fmul (fmul (fmul (fadd (Fin L) (Fin S)) (Fin T)) (Fin V)) (Fin W) = Fin x3"
    unfolding a h_def [symmetric] b x1_def [symmetric] c x2_def [symmetric] d x3_def [symmetric] ..
  then show ?thesis by (simp only: x3_def x2_def x1_def h_def)
qed

theorem short_plate_exact:
  assumes ll: "length (ParsedPlate.letters (parseTurkishPlate t)) \<le> 3"
    and dl: "length (ParsedPlate.digits (parseTurkishPlate t)) \<le> 4"
  shows "calculatePlateScore t = exactPlateScore t"
proof -
  define p where "p = parseTurkishPlate t"
  define ls where "ls = ParsedPlate.letters p"
  define ds where "ds = ParsedPlate.digits p"
  define pt where "pt = detectPlateType ls"
  have az: "\<forall>c \<in> set ls. is_AZ c"
    unfolding ls_def p_def using parsed_letters_AZ by blast
  have dig: "\<forall>c \<in> set ds. is_digit c"
    unfolding ds_def p_def using parsed_digits_digit by blast
  have l3: "length ls \<le> 3" and d4: "length ds \<le> 4"
    using ll dl by (simp_all add: ls_def ds_def p_def)
  define P where "P = prod_list (map letterPosition ls)"
  define L where "L = letterPatternScore pt ls + P"
  define S :: rat where "S = of_nat (sum_list (map zeroAsOne ds))"
  define nd :: rat where "nd = (if decimalValue ds = 0 then 1 else of_nat (decimalValue ds))"
  define T where "T = digitScore (Fin nd)"
  define V where "V = tableOr (map_of provinceTiers (provinceCode p)) (the (map_of provinceTiers ''default''))"
  define W where "W = tableOr (map_of specialPlateTypes pt) 1"
  have lettersF: "fadd (Fin (letterPatternScore pt ls)) (letterSum ls) = Fin L"
    unfolding L_def P_def using az l3 by (intro letterScore_exact) simp_all
  have digitsumF: "digitSum ds = Fin S"
    unfolding S_def using dig d4 by (intro digitSum_exact) simp_all
  have ndF: "js_or (Some (parseInt ds)) (Fin 1) = Fin nd"
    unfolding nd_def using dig d4 by (intro numDigits_exact) simp_all
  have provF: "js_or (lookup provinceTiers (provinceCode p)) (the (lookup provinceTiers ''default''))
               = Fin V"
    unfolding V_def by (rule provinceScore_exact)
  have specF: "js_or (lookup specialPlateTypes pt) (Fin 1) = Fin W"
    unfolding W_def by (rule js_or_lookup)
  have Pn: "P \<in> \<nat>" unfolding P_def using az by (rule letterProduct_nat)
  have "P \<le> 26 ^ length ls" unfolding P_def using az letterProduct_bounds by blast
  also have "(26::rat) ^ length ls \<le> 26 ^ 3" using l3 by (intro power_increasing) simp_all
  finally have Pb: "P \<le> 26 ^ 3" .
  have b2: "letterPatternScore pt ls * 2 \<in> \<nat>" and bb: "letterPatternScore pt ls \<le> 20"
    using letterPatternScore_cases [of pt ls] by auto
  have "L * 2 = letterPatternScore pt ls * 2 + P * 2" by (simp add: L_def algebra_simps)
  moreover have "P * 2 \<in> \<nat>" using Pn by (intro Nats_mult) simp_all
  ultimately have L2: "L * 2 \<in> \<nat>" using b2 by (simp add: Nats_add)
  have Lb: "L \<le> 20 + 26 ^ 3" unfolding L_def using bb Pb by simp
  have Sn: "S \<in> \<nat>" unfolding S_def by simp
  have "sum_list (map zeroAsOne ds) \<le> 9 * length ds" using dig by (rule zeroAsOne_sum_le)
  also have "\<dots> \<le> 36" using d4 by simp
  finally have Sb: "S \<le> 36" unfolding S_def by simp
  have Tc: "T \<in> {1, 2.5, 5, 10}" unfolding T_def by (rule digitScore_cases)
  have Vc: "V \<in> {1, 1.5, 2.5, 5, 10}"
    unfolding V_def provinceTiers_default by (rule provinceScore_cases)
  have Wc: "W \<in> {1, 15, 20, 25, 30}" unfolding W_def by (rule specialScore_cases)
  note tot = total_exact [OF L2 Sn Lb Sb Tc Vc Wc]
  have calc: "calculatePlateScore t =
      \<lparr> totalScore = fmul (fmul (fmul (fadd (Fin L) (Fin S)) (Fin T)) (Fin V)) (Fin W),
        plateType = pt,
        breakdown = \<lparr> province = Fin V, letters = Fin L, digits = Fin T, digitsum = Fin S,
                      special = Fin W \<rparr>,
        parsed = \<lparr> provinceCode = provinceCode p, letters = ls, digits = ds \<rparr> \<rparr>"
    unfolding calculatePlateScore_def Let_def p_def [symmetric] ls_def [symmetric]
      ds_def [symmetric] pt_def [symmetric] lettersF digitsumF ndF provF specF T_def [symmetric]
    ..
  have exact: "exactPlateScore t =
      \<lparr> totalScore = Fin ((L + S) * T * V * W),
        plateType = pt,
        breakdown = \<lparr> province = Fin V, letters = Fin L, digits = Fin T, digitsum = Fin S,
                      special = Fin W \<rparr>,
        parsed = p \<rparr>"
    unfolding exactPlateScore_def Let_def p_def [symmetric] ls_def [symmetric]
      ds_def [symmetric] pt_def [symmetric] P_def [symmetric] L_def [symmetric]
      S_def [symmetric] nd_def [symmetric] T_def [symmetric] V_def [symmetric] W_def [symmetric]
    ..
  have "\<lparr> provinceCode = provinceCode p, letters = ls, digits = ds \<rparr> = p"
    by (simp add: ls_def ds_def)
  then show ?thesis unfolding calc exact tot by simp
qed

subsection \<open>Every factor is at least 1, for every input\<close>

lemma letterPatternScore_ge1: "1 \<le> letterPatternScore pt ls"
  by (simp add: letterPatternScore_def repeatingOrSequential_def allSameBoost_def Let_def)

lemma letterSum_fold_ge1:
  "ge1 acc \<Longrightarrow> ge1 (foldl (\<lambda>acc c.
              if letterPosition c \<ge> 1 \<and> letterPosition c \<le> 26
              then fmul acc (Fin (letterPosition c)) else acc) acc ls)"
  by (induction ls arbitrary: acc) (simp_all add: ge1_fmul)

lemma letterSum_ge1: "ge1 (letterSum ls)"
  unfolding letterSum_def by (rule letterSum_fold_ge1) simp

lemma parseInt_or_one_ge1: "ge1 (js_or (Some (parseInt s)) (Fin 1))"
proof (cases "takeWhile is_digit s = []")
  case True
  then show ?thesis by (simp add: parseInt_def js_or_def)
next
  case False
  define n where "n = decimalValue (takeWhile is_digit s)"
  have p: "parseInt s = round64 (of_nat n)"
    using False by (simp add: parseInt_def n_def)
  show ?thesis
  proof (cases "n = 0")
    case True
    have "round64 (of_nat 0) = Fin (of_nat 0)" by (rule round64_of_nat) simp
    then show ?thesis using True by (simp add: p js_or_def)
  next
    case False
    then have "(1::rat) \<le> of_nat n" by simp
    then have "ge1 (round64 (of_nat n))" by (rule ge1_round64)
    then show ?thesis by (simp add: p js_or_def)
  qed
qed

lemma digitSum_fold_ge0:
  "ge0 acc \<Longrightarrow> ge0 (foldl (\<lambda>acc c. fadd acc (js_or (Some (parseInt [c])) (Fin 1))) acc ds)"
proof (induction ds arbitrary: acc)
  case Nil
  then show ?case by simp
next
  case (Cons c ds)
  have "ge1 (fadd acc (js_or (Some (parseInt [c])) (Fin 1)))"
    using Cons.prems parseInt_or_one_ge1 by (rule ge1_fadd')
  then have "ge0 (fadd acc (js_or (Some (parseInt [c])) (Fin 1)))" by (rule ge1_ge0)
  then show ?case using Cons.IH by simp
qed

lemma digitSum_ge0: "ge0 (digitSum ds)"
  unfolding digitSum_def by (rule digitSum_fold_ge0) simp

lemma digitScore_ge1: "1 \<le> digitScore n"
  by (simp add: digitScore_def)

lemma provinceScore_ge1:
  "ge1 (js_or (lookup provinceTiers k) (the (lookup provinceTiers ''default'')))"
  unfolding provinceScore_exact provinceTiers_default
  using provinceScore_cases [of k] by auto

lemma specialScore_ge1: "ge1 (js_or (lookup specialPlateTypes pt) (Fin 1))"
  unfolding js_or_lookup using specialScore_cases [of pt] by auto

lemma score_letters_ge1: "ge1 (ScoreBreakdown.letters (breakdown (calculatePlateScore t)))"
  unfolding score_letters
  by (intro ge1_fadd ge1_ge0 letterSum_ge1) (simp add: letterPatternScore_ge1)

lemma totalScore_ge1: "ge1 (totalScore (calculatePlateScore t))"
  unfolding score_total
proof (intro ge1_fmul ge1_fadd)
  show "ge1 (ScoreBreakdown.letters (breakdown (calculatePlateScore t)))"
    by (rule score_letters_ge1)
  show "ge0 (digitsum (breakdown (calculatePlateScore t)))"
    unfolding score_digitsum by (rule digitSum_ge0)
  show "ge1 (ScoreBreakdown.digits (breakdown (calculatePlateScore t)))"
    unfolding score_digits by (simp add: digitScore_ge1)
  show "ge1 (province (breakdown (calculatePlateScore t)))"
    unfolding score_province by (rule provinceScore_ge1)
  show "ge1 (special (breakdown (calculatePlateScore t)))"
    unfolding score_special by (rule specialScore_ge1)
qed

subsection \<open>A plate of the validated format is short\<close>

lemma canonicalShape_short:
  assumes "canonicalShape s"
  shows "length (ParsedPlate.letters (parseTurkishPlate s)) \<le> 3
       \<and> length (ParsedPlate.digits (parseTurkishPlate s)) \<le> 4"
proof -
  have n: "normalize s = s" using assms by (rule canonicalShape_normalized)
  from assms obtain p l d where s: "s = p @ l @ d"
    and p: "p \<noteq> []" "length p \<le> 2" "list_all is_digit p"
    and l: "l \<noteq> []" "length l \<le> 3" "list_all is_AZ l"
    and d: "d \<noteq> []" "length d \<le> 4" "list_all is_digit d"
    unfolding canonicalShape_iff by blast
  from p obtain a as where pa: "p = a # as" and a: "is_digit a" by (cases p) auto
  from l obtain x xs where lx: "l = x # xs" and x: "is_AZ x" and xs: "list_all is_AZ xs"
    by (cases l) auto
  from d obtain y ys where dy: "d = y # ys" and y: "is_digit y" by (cases d) auto
  have ny: "\<not> is_AZ y" using y is_AZ_not_digit by blast
  have "takeWhile is_digit (take 2 s) \<noteq> []" using a by (simp add: s pa)
  then have "provinceCode (parseTurkishPlate s) \<noteq> []"
    by (simp add: parse_provinceCode n padStart_def)
  then have pc: "length (provinceCode (parseTurkishPlate s)) = 2"
    using length_provinceCode [of s] by auto
  have dd: "takeWhile is_digit d = d" using d(3) by (simp add: list_all_iff)
  show ?thesis
  proof (cases as)
    case Nil
    have r: "drop 2 s = xs @ d" by (simp add: s pa Nil lx)
    have le: "ParsedPlate.letters (parseTurkishPlate s) = xs"
      using xs ny by (simp add: parse_letters pc n r dy list_all_iff takeWhile_append2)
    have "ParsedPlate.digits (parseTurkishPlate s) = d"
      by (simp add: parse_digits pc le n r dd)
    then show ?thesis using le l(2) d(2) by (simp add: lx)
  next
    case (Cons b bs)
    then have bs: "bs = []" using p(2) by (simp add: pa)
    have r: "drop 2 s = l @ d" by (simp add: s pa Cons bs)
    have le: "ParsedPlate.letters (parseTurkishPlate s) = l"
      using l(3) ny by (simp add: parse_letters pc n r dy list_all_iff takeWhile_append2)
    have "ParsedPlate.digits (parseTurkishPlate s) = d"
      by (simp add: parse_digits pc le n r dd)
    then show ?thesis using le l(2) d(2) by simp
  qed
qed

text \<open>Every plate type but STANDARD has a letter block of at most three letters.\<close>

lemma special_type_short: "detectPlateType ls \<noteq> STANDARD \<Longrightarrow> length ls \<le> 3"
  by (auto simp: detectPlateType_def split: if_splits)

lemma letterPatternScore_base:
  "pt \<noteq> STANDARD \<or> ls = [] \<Longrightarrow> letterPatternScore pt ls = 1"
  by (auto simp: letterPatternScore_def)

lemma letterPatternScore_triple:
  "3 \<le> length ls \<Longrightarrow> setSize ls = 1 \<Longrightarrow>
   repeatingOrSequential 1 ls = 20
   \<and> allSameBoost (repeatingOrSequential 1 ls) ls = 7.5
   \<and> letterPatternScore STANDARD ls = 7.5"
  by (auto simp: letterPatternScore_def repeatingOrSequential_def allSameBoost_def Let_def)

text \<open>The value 7.5 belongs to this case alone.\<close>

lemma letterPatternScore_7_5_iff:
  "letterPatternScore pt ls = 7.5 \<longleftrightarrow> pt = STANDARD \<and> 3 \<le> length ls \<and> setSize ls = 1"
  by (auto simp: letterPatternScore_def repeatingOrSequential_def allSameBoost_def Let_def)

lemma remdups_replicate: "remdups (replicate n c) = (if n = 0 then [] else [c])"
  by (induction n) auto

lemma setSize_identical:
  assumes "ls \<noteq> []" and "\<forall>c \<in> set ls. c = hd ls"
  shows "setSize ls = 1"
proof -
  have "replicate (length ls) (hd ls) = ls"
    using assms(2) by (intro replicate_length_same) simp
  then have "remdups ls = remdups (replicate (length ls) (hd ls))" by simp
  also have "\<dots> = [hd ls]" using assms(1) by (simp only: remdups_replicate) simp
  finally show ?thesis by (simp add: setSize_def)
qed

text \<open>The converse: one distinct character means all characters are the first one.\<close>

lemma setSize_one_identical:
  assumes "setSize ls = 1"
  shows "\<forall>c \<in> set ls. c = hd ls"
proof -
  from assms obtain x where x: "remdups ls = [x]"
    by (cases "remdups ls") (auto simp: setSize_def)
  then have "set ls = {x}" by (metis set_remdups list.set(1) list.set(2))
  moreover then have "ls \<noteq> []" by auto
  ultimately show ?thesis by (cases ls) auto
qed

subsection \<open>Concrete plates\<close>

text \<open>
  Each of these plates is short, so its score is the exact score, which is evaluated.
\<close>

lemma score_06AA01:
  "calculatePlateScore ''06AA01'' =
     \<lparr> totalScore = Fin 900, plateType = UNIVERSITY,
       breakdown = \<lparr> province = Fin 1.5, letters = Fin 2, digits = Fin 10, digitsum = Fin 2,
                     special = Fin 15 \<rparr>,
       parsed = \<lparr> provinceCode = ''06'', letters = ''AA'', digits = ''01'' \<rparr> \<rparr>"
proof -
  have "length (ParsedPlate.letters (parseTurkishPlate ''06AA01'')) \<le> 3" by code_simp
  moreover have "length (ParsedPlate.digits (parseTurkishPlate ''06AA01'')) \<le> 4" by code_simp
  ultimately have "calculatePlateScore ''06AA01'' = exactPlateScore ''06AA01''"
    by (rule short_plate_exact)
  also have "\<dots> =
     \<lparr> totalScore = Fin 900, plateType = UNIVERSITY,
       breakdown = \<lparr> province = Fin 1.5, letters = Fin 2, digits = Fin 10, digitsum = Fin 2,
                     special = Fin 15 \<rparr>,
       parsed = \<lparr> provinceCode = ''06'', letters = ''AA'', digits = ''01'' \<rparr> \<rparr>"
    by code_simp
  finally show ?thesis .
qed

lemma score_34AB123:
  "calculatePlateScore ''34AB123'' =
     \<lparr> totalScore = Fin 33.75, plateType = STANDARD,
       breakdown = \<lparr> province = Fin 1.5, letters = Fin 3, digits = Fin 2.5, digitsum = Fin 6,
                     special = Fin 1 \<rparr>,
       parsed = \<lparr> provinceCode = ''34'', letters = ''AB'', digits = ''123'' \<rparr> \<rparr>"
proof -
  have "length (ParsedPlate.letters (parseTurkishPlate ''34AB123'')) \<le> 3" by code_simp
  moreover have "length (ParsedPlate.digits (parseTurkishPlate ''34AB123'')) \<le> 4" by code_simp
  ultimately have "calculatePlateScore ''34AB123'' = exactPlateScore ''34AB123''"
    by (rule short_plate_exact)
  also have "\<dots> =
     \<lparr> totalScore = Fin 33.75, plateType = STANDARD,
       breakdown = \<lparr> province = Fin 1.5, letters = Fin 3, digits = Fin 2.5, digitsum = Fin 6,
                     special = Fin 1 \<rparr>,
       parsed = \<lparr> provinceCode = ''34'', letters = ''AB'', digits = ''123'' \<rparr> \<rparr>"
    by code_simp
  finally show ?thesis .
qed

lemma score_81BB1:
  "calculatePlateScore ''81BB1'' =
     \<lparr> totalScore = Fin 1500, plateType = STANDARD,
       breakdown = \<lparr> province = Fin 10, letters = Fin 14, digits = Fin 10, digitsum = Fin 1,
                     special = Fin 1 \<rparr>,
       parsed = \<lparr> provinceCode = ''81'', letters = ''BB'', digits = ''1'' \<rparr> \<rparr>"
proof -
  have "length (ParsedPlate.letters (parseTurkishPlate ''81BB1'')) \<le> 3" by code_simp
  moreover have "length (ParsedPlate.digits (parseTurkishPlate ''81BB1'')) \<le> 4" by code_simp
  ultimately have "calculatePlateScore ''81BB1'' = exactPlateScore ''81BB1''"
    by (rule short_plate_exact)
  also have "\<dots> =
     \<lparr> totalScore = Fin 1500, plateType = STANDARD,
       breakdown = \<lparr> province = Fin 10, letters = Fin 14, digits = Fin 10, digitsum = Fin 1,
                     special = Fin 1 \<rparr>,
       parsed = \<lparr> provinceCode = ''81'', letters = ''BB'', digits = ''1'' \<rparr> \<rparr>"
    by code_simp
  finally show ?thesis .
qed

lemma score_99AB1:
  "calculatePlateScore ''99AB1'' =
     \<lparr> totalScore = Fin 40, plateType = STANDARD,
       breakdown = \<lparr> province = Fin 1, letters = Fin 3, digits = Fin 10, digitsum = Fin 1,
                     special = Fin 1 \<rparr>,
       parsed = \<lparr> provinceCode = ''99'', letters = ''AB'', digits = ''1'' \<rparr> \<rparr>"
proof -
  have "length (ParsedPlate.letters (parseTurkishPlate ''99AB1'')) \<le> 3" by code_simp
  moreover have "length (ParsedPlate.digits (parseTurkishPlate ''99AB1'')) \<le> 4" by code_simp
  ultimately have "calculatePlateScore ''99AB1'' = exactPlateScore ''99AB1''"
    by (rule short_plate_exact)
  also have "\<dots> =
     \<lparr> totalScore = Fin 40, plateType = STANDARD,
       breakdown = \<lparr> province = Fin 1, letters = Fin 3, digits = Fin 10, digitsum = Fin 1,
                     special = Fin 1 \<rparr>,
       parsed = \<lparr> provinceCode = ''99'', letters = ''AB'', digits = ''1'' \<rparr> \<rparr>"
    by code_simp
  finally show ?thesis .
qed

lemma score_34BBB12:
  "calculatePlateScore ''34BBB12'' =
     \<lparr> totalScore = Fin 138.75, plateType = STANDARD,
       breakdown = \<lparr> province = Fin 1.5, letters = Fin 15.5, digits = Fin 5, digitsum = Fin 3,
                     special = Fin 1 \<rparr>,
       parsed = \<lparr> provinceCode = ''34'', letters = ''BBB'', digits = ''12'' \<rparr> \<rparr>"
proof -
  have "length (ParsedPlate.letters (parseTurkishPlate ''34BBB12'')) \<le> 3" by code_simp
  moreover have "length (ParsedPlate.digits (parseTurkishPlate ''34BBB12'')) \<le> 4" by code_simp
  ultimately have "calculatePlateScore ''34BBB12'' = exactPlateScore ''34BBB12''"
    by (rule short_plate_exact)
  also have "\<dots> =
     \<lparr> totalScore = Fin 138.75, plateType = STANDARD,
       breakdown = \<lparr> province = Fin 1.5, letters = Fin 15.5, digits = Fin 5, digitsum = Fin 3,
                     special = Fin 1 \<rparr>,
       parsed = \<lparr> provinceCode = ''34'', letters = ''BBB'', digits = ''12'' \<rparr> \<rparr>"
    by code_simp
  finally show ?thesis .
qed

lemma score_34TAB1:
  "calculatePlateScore ''34TAB1'' =
     \<lparr> totalScore = Fin 9450, plateType = TAXI,
       breakdown = \<lparr> province = Fin 1.5, letters = Fin 41, digits = Fin 10, digitsum = Fin 1,
                     special = Fin 15 \<rparr>,
       parsed = \<lparr> provinceCode = ''34'', letters = ''TAB'', digits = ''1'' \<rparr> \<rparr>"
proof -
  have "length (ParsedPlate.letters (parseTurkishPlate ''34TAB1'')) \<le> 3" by code_simp
  moreover have "length (ParsedPlate.digits (parseTurkishPlate ''34TAB1'')) \<le> 4" by code_simp
  ultimately have "calculatePlateScore ''34TAB1'' = exactPlateScore ''34TAB1''"
    by (rule short_plate_exact)
  also have "\<dots> =
     \<lparr> totalScore = Fin 9450, plateType = TAXI,
       breakdown = \<lparr> province = Fin 1.5, letters = Fin 41, digits = Fin 10, digitsum = Fin 1,
                     special = Fin 15 \<rparr>,
       parsed = \<lparr> provinceCode = ''34'', letters = ''TAB'', digits = ''1'' \<rparr> \<rparr>"
    by code_simp
  finally show ?thesis .
qed

lemma score_34:
  "calculatePlateScore ''34'' =
     \<lparr> totalScore = Fin 30, plateType = STANDARD,
       breakdown = \<lparr> province = Fin 1.5, letters = Fin 2, digits = Fin 10, digitsum = Fin 0,
                     special = Fin 1 \<rparr>,
       parsed = \<lparr> provinceCode = ''34'', letters = [], digits = [] \<rparr> \<rparr>"
proof -
  have "length (ParsedPlate.letters (parseTurkishPlate ''34'')) \<le> 3" by code_simp
  moreover have "length (ParsedPlate.digits (parseTurkishPlate ''34'')) \<le> 4" by code_simp
  ultimately have "calculatePlateScore ''34'' = exactPlateScore ''34''"
    by (rule short_plate_exact)
  also have "\<dots> =
     \<lparr> totalScore = Fin 30, plateType = STANDARD,
       breakdown = \<lparr> province = Fin 1.5, letters = Fin 2, digits = Fin 10, digitsum = Fin 0,
                     special = Fin 1 \<rparr>,
       parsed = \<lparr> provinceCode = ''34'', letters = [], digits = [] \<rparr> \<rparr>"
    by code_simp
  finally show ?thesis .
qed

text \<open>
  A block of twelve letters, where the arithmetic rounds: \<open>26^12\<close> is a binary64 value,
  but neither \<open>26^12 + 7.5\<close> nor \<open>26^12 + 1\<close> is, and both are rounded back to
  \<open>26^12\<close>.
\<close>

lemma letterSum_snoc:
  "letterSum (ls @ [c]) =
     (if letterPosition c \<ge> 1 \<and> letterPosition c \<le> 26
      then fmul (letterSum ls) (Fin (letterPosition c)) else letterSum ls)"
  by (simp add: letterSum_def)

lemma score_34ZZZZZZZZZZZZ1:
  "calculatePlateScore ''34ZZZZZZZZZZZZ1'' =
     \<lparr> totalScore = Fin 1431434349925232640, plateType = STANDARD,
       breakdown = \<lparr> province = Fin 1.5, letters = Fin 95428956661682176, digits = Fin 10,
                     digitsum = Fin 1, special = Fin 1 \<rparr>,
       parsed = \<lparr> provinceCode = ''34'', letters = ''ZZZZZZZZZZZZ'', digits = ''1'' \<rparr> \<rparr>"
proof -
  have p: "parseTurkishPlate ''34ZZZZZZZZZZZZ1'' =
             \<lparr> provinceCode = ''34'', letters = ''ZZZZZZZZZZZZ'', digits = ''1'' \<rparr>"
    by code_simp
  have pt: "detectPlateType ''ZZZZZZZZZZZZ'' = STANDARD" by code_simp
  have base: "letterPatternScore STANDARD ''ZZZZZZZZZZZZ'' = 7.5" by code_simp
  have z: "letterPosition CHR ''Z'' = 26" by (simp add: letterPosition_def charCode_def)
  have az: "\<forall>c \<in> set ''ZZZZZZZZZZZ''. is_AZ c" by (simp add: is_AZ_def charCode_def)
  have "letterSum ''ZZZZZZZZZZZ'' = Fin (prod_list (map letterPosition ''ZZZZZZZZZZZ''))"
    using az by (rule letterSum_exact) simp
  then have s11: "letterSum ''ZZZZZZZZZZZ'' = Fin 3670344486987776" by (simp add: z)
  have r12: "round64 95428956661682176 = Fin 95428956661682176"
    by (rule round64_exact_scaled [where j = 0 and e = 12 and k = 23298085122481]) simp_all
  have "letterSum (''ZZZZZZZZZZZ'' @ ''Z'') = fmul (Fin 3670344486987776) (Fin 26)"
    unfolding letterSum_snoc s11 by (simp add: z)
  then have s12: "letterSum ''ZZZZZZZZZZZZ'' = Fin 95428956661682176"
    by (simp add: r12)
  have f1: "\<lfloor>(190857913323364367::rat) / 32\<rfloor> = 5964309791355136"
    by (rule floor_unique) simp_all
  have rl: "round64 (95428956661682176 + 7.5) = Fin 95428956661682176"
    by (subst round64_large [where b = 57]) (simp_all add: roundHalfEven_def Let_def f1)
  have letters: "fadd (Fin 7.5) (letterSum ''ZZZZZZZZZZZZ'') = Fin 95428956661682176"
    unfolding s12 using rl by (simp add: add.commute)
  have dig: "\<forall>c \<in> set ''1''. is_digit c" by (simp add: is_digit_def charCode_def)
  have "digitSum ''1'' = Fin (of_nat (sum_list (map zeroAsOne ''1'')))"
    using dig by (rule digitSum_exact) simp
  moreover have "sum_list (map zeroAsOne ''1'') = 1" by code_simp
  ultimately have dsum: "digitSum ''1'' = Fin 1" by simp
  have "js_or (Some (parseInt ''1'')) (Fin 1)
        = Fin (if decimalValue ''1'' = 0 then 1 else of_nat (decimalValue ''1''))"
    using dig by (rule numDigits_exact) simp
  moreover have "decimalValue ''1'' = 1" by code_simp
  ultimately have nd: "js_or (Some (parseInt ''1'')) (Fin 1) = Fin 1" by simp
  have tier: "digitScore (Fin 1) = 10" by (simp add: digitScore_def)
  have "tableOr (map_of provinceTiers ''34'') (the (map_of provinceTiers ''default'')) = 1.5"
    by code_simp
  then have prov: "js_or (lookup provinceTiers ''34'') (the (lookup provinceTiers ''default''))
                   = Fin 1.5"
    by (simp only: provinceScore_exact)
  have "tableOr (map_of specialPlateTypes STANDARD) 1 = 1" by code_simp
  then have spec: "js_or (lookup specialPlateTypes STANDARD) (Fin 1) = Fin 1"
    by (simp only: js_or_lookup)
  have f2: "\<lfloor>(95428956661682177::rat) / 16\<rfloor> = 5964309791355136"
    by (rule floor_unique) simp_all
  have t1: "fadd (Fin 95428956661682176) (Fin 1) = Fin 95428956661682176"
    by (simp, subst round64_large [where b = 57]) (simp_all add: roundHalfEven_def Let_def f2)
  have t2: "fmul (Fin 95428956661682176) (Fin 10) = Fin 954289566616821760"
    using round64_exact_scaled [where x = 954289566616821760 and j = 0 and e = 13
        and k = 116490425612405]
    by simp
  have t3: "fmul (Fin 954289566616821760) (Fin 1.5) = Fin 1431434349925232640"
    using round64_exact_scaled [where x = 1431434349925232640 and j = 0 and e = 12
        and k = 349471276837215]
    by simp
  have t4: "fmul (Fin 1431434349925232640) (Fin 1) = Fin 1431434349925232640"
    using round64_exact_scaled [where x = 1431434349925232640 and j = 0 and e = 12
        and k = 349471276837215]
    by simp
  show ?thesis
    unfolding calculatePlateScore_def Let_def p
    by (simp only: ParsedPlate.simps pt base letters dsum nd tier prov spec t1 t2 t3 t4)
qed

section \<open>The claims\<close>

text \<open>
  C1. The claim: \<^verbatim>\<open>breakdown.digitsum\<close> is the sum of the decimal digits of the parsed
  digit block, so that \<^verbatim>\<open>score("06AA01")\<close> has digit sum \<open>0 + 1 = 1\<close> and total 675.
  The code adds \<^verbatim>\<open>parseInt(digitString[i]) || 1\<close>, and \<^verbatim>\<open>0 || 1\<close> is 1: the digit
  \<^verbatim>\<open>0\<close> counts as 1 (\<open>digit_or_one\<close> and \<open>digitSum_exact\<close> above). At
  \<^verbatim>\<open>"06AA01"\<close> the digit block is \<^verbatim>\<open>"01"\<close>, the digit sum is \<open>1 + 1 = 2\<close> and
  the total is \<open>(2 + 2) \<times> 10 \<times> 1.5 \<times> 15 = 900\<close>.
\<close>

theorem C1_digitsum_counts_zero_as_one:
  "ParsedPlate.digits (parsed (calculatePlateScore ''06AA01'')) = ''01''
   \<and> digitsum (breakdown (calculatePlateScore ''06AA01'')) = Fin 2
   \<and> ScoreBreakdown.letters (breakdown (calculatePlateScore ''06AA01'')) = Fin 2
   \<and> totalScore (calculatePlateScore ''06AA01'') = Fin 900"
  by (simp add: score_06AA01)

text \<open>
  C2. The claim: the letter block is the leading run of letters of what is left when
  exactly the consumed province digits are removed, so that \<^verbatim>\<open>parse("6AB12")\<close> has
  province code \<^verbatim>\<open>"06"\<close> and letters \<^verbatim>\<open>"AB"\<close>. The code removes
  \<^verbatim>\<open>provinceCode.length\<close> characters, the length of the padded code: for a province
  written with one digit it removes the first letter too. At \<^verbatim>\<open>"6AB12"\<close> the letters
  are \<^verbatim>\<open>"B"\<close>.
\<close>

theorem C2_parse_6AB12:
  "parseTurkishPlate ''6AB12'' = \<lparr> provinceCode = ''06'', letters = ''B'', digits = ''12'' \<rparr>"
  by code_simp

text \<open>
  C3, as stated: for a text whose normal form has the validated format, province code,
  letters and digits concatenate to the normal form. It fails at \<^verbatim>\<open>"6AB12"\<close>, which
  is its own normal form and has the format: the three fields concatenate to
  \<^verbatim>\<open>"06B12"\<close>.
\<close>

theorem C3_roundtrip_counterexample:
  "canonicalShape (normalize ''6AB12'')
   \<and> normalize ''6AB12'' = ''6AB12''
   \<and> provinceCode (parseTurkishPlate ''6AB12'') @ ParsedPlate.letters (parseTurkishPlate ''6AB12'')
       @ ParsedPlate.digits (parseTurkishPlate ''6AB12'') = ''06B12''
   \<and> provinceCode (parseTurkishPlate ''6AB12'') @ ParsedPlate.letters (parseTurkishPlate ''6AB12'')
       @ ParsedPlate.digits (parseTurkishPlate ''6AB12'') \<noteq> normalize ''6AB12''"
  by code_simp

text \<open>
  C3, amended: for a text whose normal form has the validated format and writes the
  province with two digits, province code, letters and digits concatenate to the normal
  form. (The province code always has two characters, so a province written with one
  digit cannot be given back.)
\<close>

theorem C3_roundtrip_two_digit_province:
  assumes shape: "canonicalShape (normalize plateText)"
    and two: "length (takeWhile is_digit (normalize plateText)) = 2"
  shows "provinceCode (parseTurkishPlate plateText)
           @ ParsedPlate.letters (parseTurkishPlate plateText)
           @ ParsedPlate.digits (parseTurkishPlate plateText) = normalize plateText"
proof -
  define n where "n = normalize plateText"
  define p where "p = takeWhile is_digit n"
  define r where "r = dropWhile is_digit n"
  define l where "l = takeWhile is_AZ r"
  define d where "d = dropWhile is_AZ r"
  have n: "n = p @ r" and r: "r = l @ d"
    by (simp_all add: p_def r_def l_def d_def)
  have lp: "length p = 2" using two by (simp add: p_def n_def)
  have dd: "list_all is_digit d"
    using shape by (simp add: canonicalShape_def Let_def n_def r_def d_def)
  have tk: "take 2 n = p" using lp by (simp add: n)
  have "takeWhile is_digit (take 2 n) = p"
    unfolding tk by (simp add: p_def)
  then have pc: "provinceCode (parseTurkishPlate plateText) = p"
    using lp by (auto simp: parse_provinceCode n_def [symmetric] padStart_def)
  have dr: "drop 2 n = r" using lp by (simp add: n)
  have le: "ParsedPlate.letters (parseTurkishPlate plateText) = l"
    by (simp add: parse_letters pc lp n_def [symmetric] dr l_def)
  have "takeWhile is_digit d = d"
    using dd by (simp add: list_all_iff)
  then have di: "ParsedPlate.digits (parseTurkishPlate plateText) = d"
    by (simp add: parse_digits pc le lp n_def [symmetric] dr r)
  show ?thesis by (simp add: pc le di n r n_def [symmetric])
qed

theorem C3_roundtrip_two_digit_province_witness:
  "canonicalShape (normalize ''34 ab-123'')
   \<and> length (takeWhile is_digit (normalize ''34 ab-123'')) = 2
   \<and> normalize ''34 ab-123'' = ''34AB123''
   \<and> provinceCode (parseTurkishPlate ''34 ab-123'')
        @ ParsedPlate.letters (parseTurkishPlate ''34 ab-123'')
        @ ParsedPlate.digits (parseTurkishPlate ''34 ab-123'') = normalize ''34 ab-123''"
proof -
  have h1: "canonicalShape (normalize ''34 ab-123'')" by code_simp
  have h2: "length (takeWhile is_digit (normalize ''34 ab-123'')) = 2" by code_simp
  have h3: "normalize ''34 ab-123'' = ''34AB123''" by code_simp
  show ?thesis
    using h1 h2 h3 C3_roundtrip_two_digit_province [OF h1 h2] by (intro conjI)
qed

text \<open>
  C4. For every letter string, \<open>detectPlateType\<close> is the nine-rule priority match of
  the specification (\<open>classify_spec\<close>), and the ten concrete classifications hold.
\<close>

theorem C4_classifier:
  "detectPlateType ls = classify_spec ls
    \<and> detectPlateType ''AA'' = UNIVERSITY
    \<and> detectPlateType ''A'' = POLICE
    \<and> detectPlateType ''AAA'' = POLICE
    \<and> detectPlateType ''JAA'' = GENDARMERIE
    \<and> detectPlateType ''SGH'' = COAST_GUARD
    \<and> detectPlateType ''CD'' = DIPLOMATIC
    \<and> detectPlateType ''CC'' = CONSULATE
    \<and> detectPlateType ''MB'' = FOREIGN
    \<and> detectPlateType ''TAB'' = TAXI
    \<and> detectPlateType ''XY'' = STANDARD"
  using detect_classify [of ls] detect_examples by (intro conjI) simp_all

text \<open>
  C5. For every text of the validated format \<^verbatim>\<open>\d{1,2}[A-Z]{1,3}\d{1,4}\<close>,
  \<open>calculatePlateScore\<close> returns a result (the function is total and has no error
  branch) whose total score is a finite number strictly greater than 0.
\<close>

theorem C5_valid_plate_positive:
  assumes "canonicalShape plateText"
  shows "\<exists>q. totalScore (calculatePlateScore plateText) = Fin q \<and> 0 < q"
proof -
  have "calculatePlateScore plateText = exactPlateScore plateText"
    using canonicalShape_short [OF assms] by (intro short_plate_exact) simp_all
  then obtain q where q: "totalScore (calculatePlateScore plateText) = Fin q"
    by (simp add: exactPlateScore_def Let_def)
  have "ge1 (totalScore (calculatePlateScore plateText))" by (rule totalScore_ge1)
  then have "1 \<le> q" by (simp add: q)
  then have "0 < q" by simp
  with q show ?thesis by blast
qed

theorem C5_valid_plate_positive_witness:
  "canonicalShape ''34AB123''
   \<and> (\<exists>q. totalScore (calculatePlateScore ''34AB123'') = Fin q \<and> 0 < q)
   \<and> totalScore (calculatePlateScore ''34AB123'') = Fin 33.75"
proof -
  have h: "canonicalShape ''34AB123''" by code_simp
  have v: "totalScore (calculatePlateScore ''34AB123'') = Fin 33.75"
    by (simp add: score_34AB123)
  show ?thesis using h v C5_valid_plate_positive [OF h] by (intro conjI)
qed

text \<open>
  C6. For every plate whose detected type is STANDARD and whose letter block has at
  least three characters, all identical, the first adjustment assigns 20, the second
  replaces it by 7.5, and 7.5 is the letter score before the product of the letter
  positions is added: \<^verbatim>\<open>breakdown.letters\<close> is the binary64 sum of 7.5 and
  \<^verbatim>\<open>letterSum\<close>, and for a block of at most 11 letters it is exactly 7.5 plus the
  product of the positions. The value 7.5 belongs to this case alone: for any plate type
  and letter string the letter score before the product is 7.5 exactly when the type is
  STANDARD and the string has at least three characters, all identical.
\<close>

theorem C6_identical_triple_base:
  assumes "plateType (calculatePlateScore plateText) = STANDARD"
    and "3 \<le> length (ParsedPlate.letters (parsed (calculatePlateScore plateText)))"
    and "\<forall>c \<in> set (ParsedPlate.letters (parsed (calculatePlateScore plateText))).
           c = hd (ParsedPlate.letters (parsed (calculatePlateScore plateText)))"
  shows "repeatingOrSequential 1 (ParsedPlate.letters (parsed (calculatePlateScore plateText))) = 20
       \<and> letterPatternScore (plateType (calculatePlateScore plateText))
           (ParsedPlate.letters (parsed (calculatePlateScore plateText))) = 7.5
       \<and> ScoreBreakdown.letters (breakdown (calculatePlateScore plateText)) =
           fadd (Fin 7.5) (letterSum (ParsedPlate.letters (parsed (calculatePlateScore plateText))))
       \<and> (length (ParsedPlate.letters (parsed (calculatePlateScore plateText))) \<le> 11 \<longrightarrow>
           ScoreBreakdown.letters (breakdown (calculatePlateScore plateText)) =
             Fin (7.5 + prod_list (map letterPosition
                           (ParsedPlate.letters (parsed (calculatePlateScore plateText))))))
       \<and> (\<forall>pt ls. letterPatternScore pt ls = 7.5 \<longleftrightarrow>
             pt = STANDARD \<and> 3 \<le> length ls \<and> (\<forall>c \<in> set ls. c = hd ls))"
proof -
  let ?ls = "ParsedPlate.letters (parseTurkishPlate plateText)"
  have len: "3 \<le> length ?ls" using assms(2) by (simp add: score_parsed)
  then have ne: "?ls \<noteq> []" by auto
  have "setSize ?ls = 1"
    using assms(3) by (intro setSize_identical [OF ne]) (simp add: score_parsed)
  with len have b: "repeatingOrSequential 1 ?ls = 20" "letterPatternScore STANDARD ?ls = 7.5"
    using letterPatternScore_triple by blast+
  have st: "detectPlateType ?ls = STANDARD"
    using assms(1) by (simp add: score_plateType)
  have az: "\<forall>c \<in> set ?ls. is_AZ c" using parsed_letters_AZ by blast
  have sum: "ScoreBreakdown.letters (breakdown (calculatePlateScore plateText)) =
           fadd (Fin 7.5) (letterSum ?ls)"
    by (simp only: score_letters st b)
  have exact: "ScoreBreakdown.letters (breakdown (calculatePlateScore plateText)) =
           Fin (7.5 + prod_list (map letterPosition ?ls))" if "length ?ls \<le> 11"
    using letterScore_exact [OF az that, of STANDARD] by (simp only: score_letters st b)
  have only: "letterPatternScore pt ls = 7.5 \<longleftrightarrow>
             pt = STANDARD \<and> 3 \<le> length ls \<and> (\<forall>c \<in> set ls. c = hd ls)" for pt ls
  proof -
    have "setSize ls = 1 \<longleftrightarrow> (\<forall>c \<in> set ls. c = hd ls)" if "3 \<le> length ls"
    proof -
      from that have "ls \<noteq> []" by auto
      then show ?thesis
        using setSize_identical [of ls] setSize_one_identical [of ls] by blast
    qed
    then show ?thesis unfolding letterPatternScore_7_5_iff by blast
  qed
  show ?thesis
    using b(1) sum exact only by (simp add: score_parsed score_plateType st b(2))
qed

theorem C6_identical_triple_base_witness:
  "plateType (calculatePlateScore ''34BBB12'') = STANDARD
   \<and> ParsedPlate.letters (parsed (calculatePlateScore ''34BBB12'')) = ''BBB''
   \<and> letterPatternScore (plateType (calculatePlateScore ''34BBB12''))
           (ParsedPlate.letters (parsed (calculatePlateScore ''34BBB12''))) = 7.5
   \<and> ScoreBreakdown.letters (breakdown (calculatePlateScore ''34BBB12'')) = Fin (7.5 + 2 * 2 * 2)"
proof -
  have h1: "plateType (calculatePlateScore ''34BBB12'') = STANDARD"
    by (simp add: score_34BBB12)
  have l: "ParsedPlate.letters (parsed (calculatePlateScore ''34BBB12'')) = ''BBB''"
    by (simp add: score_34BBB12)
  have h2: "3 \<le> length (ParsedPlate.letters (parsed (calculatePlateScore ''34BBB12'')))"
    unfolding l by simp
  have h3: "\<forall>c \<in> set (ParsedPlate.letters (parsed (calculatePlateScore ''34BBB12''))).
           c = hd (ParsedPlate.letters (parsed (calculatePlateScore ''34BBB12'')))"
    unfolding l by simp
  have h4: "length (ParsedPlate.letters (parsed (calculatePlateScore ''34BBB12''))) \<le> 11"
    unfolding l by simp
  have p: "prod_list (map letterPosition ''BBB'') = 2 * 2 * 2"
    by (simp add: letterPosition_def charCode_def)
  note c6 = C6_identical_triple_base [OF h1 h2 h3]
  from c6 have a: "letterPatternScore (plateType (calculatePlateScore ''34BBB12''))
           (ParsedPlate.letters (parsed (calculatePlateScore ''34BBB12''))) = 7.5"
    by blast
  from c6 h4 have "ScoreBreakdown.letters (breakdown (calculatePlateScore ''34BBB12'')) =
             Fin (7.5 + prod_list (map letterPosition
                           (ParsedPlate.letters (parsed (calculatePlateScore ''34BBB12'')))))"
    by blast
  then have b: "ScoreBreakdown.letters (breakdown (calculatePlateScore ''34BBB12''))
                = Fin (7.5 + 2 * 2 * 2)"
    unfolding l p .
  show ?thesis using h1 l a b by (intro conjI)
qed

text \<open>
  C7. For every plate, the product of the alphabet positions of the characters of the
  letter block (\<^verbatim>\<open>A\<close> = 1, ..., \<^verbatim>\<open>Z\<close> = 26; the empty product is 1), taken from 1 in
  the arithmetic of the language, is added to the letter score. For a block of at most
  11 letters the product and the sum are exact. When the detected type is not STANDARD,
  or the letter block is empty, \<^verbatim>\<open>breakdown.letters\<close> is exactly 1 plus that product.
\<close>

theorem C7_letter_product_added:
  "ScoreBreakdown.letters (breakdown (calculatePlateScore plateText)) =
     fadd (Fin (letterPatternScore (plateType (calculatePlateScore plateText))
                  (ParsedPlate.letters (parsed (calculatePlateScore plateText)))))
          (foldl (\<lambda>acc c. fmul acc (Fin (letterPosition c))) (Fin 1)
                 (ParsedPlate.letters (parsed (calculatePlateScore plateText))))
   \<and> (length (ParsedPlate.letters (parsed (calculatePlateScore plateText))) \<le> 11
      \<longrightarrow> ScoreBreakdown.letters (breakdown (calculatePlateScore plateText)) =
            Fin (letterPatternScore (plateType (calculatePlateScore plateText))
                   (ParsedPlate.letters (parsed (calculatePlateScore plateText)))
                 + prod_list (map letterPosition
                            (ParsedPlate.letters (parsed (calculatePlateScore plateText))))))
   \<and> (plateType (calculatePlateScore plateText) \<noteq> STANDARD
        \<or> ParsedPlate.letters (parsed (calculatePlateScore plateText)) = []
      \<longrightarrow> ScoreBreakdown.letters (breakdown (calculatePlateScore plateText)) =
            Fin (1 + prod_list (map letterPosition
                            (ParsedPlate.letters (parsed (calculatePlateScore plateText))))))
   \<and> (\<forall>c \<in> set (ParsedPlate.letters (parsed (calculatePlateScore plateText))).
         letterPosition c \<in> \<nat> \<and> 1 \<le> letterPosition c \<and> letterPosition c \<le> 26)
   \<and> letterPosition CHR ''A'' = 1 \<and> letterPosition CHR ''Z'' = 26"
proof -
  let ?ls = "ParsedPlate.letters (parseTurkishPlate plateText)"
  let ?pt = "detectPlateType ?ls"
  have az: "\<forall>c \<in> set ?ls. is_AZ c" using parsed_letters_AZ by blast
  have "letterSum ?ls = foldl (\<lambda>acc c. fmul acc (Fin (letterPosition c))) (Fin 1) ?ls"
    unfolding letterSum_def using az by (rule letterSum_unguarded)
  then have 1: "ScoreBreakdown.letters (breakdown (calculatePlateScore plateText)) =
     fadd (Fin (letterPatternScore ?pt ?ls))
          (foldl (\<lambda>acc c. fmul acc (Fin (letterPosition c))) (Fin 1) ?ls)"
    by (simp only: score_letters)
  have 2: "ScoreBreakdown.letters (breakdown (calculatePlateScore plateText)) =
            Fin (letterPatternScore ?pt ?ls + prod_list (map letterPosition ?ls))"
    if "length ?ls \<le> 11"
    using letterScore_exact [OF az that, of ?pt] by (simp only: score_letters)
  have 3: "ScoreBreakdown.letters (breakdown (calculatePlateScore plateText)) =
            Fin (1 + prod_list (map letterPosition ?ls))"
    if "?pt \<noteq> STANDARD \<or> ?ls = []"
  proof -
    have "length ?ls \<le> 3" using that special_type_short [of ?ls] by auto
    then have "length ?ls \<le> 11" by simp
    then show ?thesis using 2 letterPatternScore_base [OF that] by simp
  qed
  have 4: "\<forall>c \<in> set ?ls. letterPosition c \<in> \<nat> \<and> 1 \<le> letterPosition c \<and> letterPosition c \<le> 26"
    using az by (simp add: is_AZ_position is_AZ_position_nat)
  have 5: "letterPosition CHR ''A'' = 1 \<and> letterPosition CHR ''Z'' = 26"
    by (simp add: letterPosition_def charCode_def)
  show ?thesis
    unfolding score_parsed score_plateType using 1 2 3 4 5 by blast
qed

theorem C7_letter_product_added_witness:
  "plateType (calculatePlateScore ''34TAB1'') \<noteq> STANDARD
   \<and> ParsedPlate.letters (parsed (calculatePlateScore ''34TAB1'')) = ''TAB''
   \<and> ScoreBreakdown.letters (breakdown (calculatePlateScore ''34TAB1'')) = Fin (1 + 20 * 1 * 2)
   \<and> ParsedPlate.letters (parsed (calculatePlateScore ''34'')) = []
   \<and> ScoreBreakdown.letters (breakdown (calculatePlateScore ''34'')) = Fin (1 + 1)
   \<and> length (ParsedPlate.letters (parsed (calculatePlateScore ''34BBB12''))) \<le> 11
   \<and> ScoreBreakdown.letters (breakdown (calculatePlateScore ''34BBB12'')) = Fin (7.5 + 2 * 2 * 2)"
proof -
  have h: "plateType (calculatePlateScore ''34TAB1'') \<noteq> STANDARD"
    by (simp add: score_34TAB1)
  have l: "ParsedPlate.letters (parsed (calculatePlateScore ''34TAB1'')) = ''TAB''"
    by (simp add: score_34TAB1)
  have p: "prod_list (map letterPosition ''TAB'') = 20 * 1 * 2"
    by (simp add: letterPosition_def charCode_def)
  from C7_letter_product_added [of "''34TAB1''"] h
  have "ScoreBreakdown.letters (breakdown (calculatePlateScore ''34TAB1'')) =
            Fin (1 + prod_list (map letterPosition
                            (ParsedPlate.letters (parsed (calculatePlateScore ''34TAB1'')))))"
    by blast
  then have a: "ScoreBreakdown.letters (breakdown (calculatePlateScore ''34TAB1''))
                = Fin (1 + 20 * 1 * 2)"
    unfolding l p .
  have e: "ParsedPlate.letters (parsed (calculatePlateScore ''34'')) = []"
    by (simp add: score_34)
  from C7_letter_product_added [of "''34''"] e
  have "ScoreBreakdown.letters (breakdown (calculatePlateScore ''34'')) =
            Fin (1 + prod_list (map letterPosition
                            (ParsedPlate.letters (parsed (calculatePlateScore ''34'')))))"
    by blast
  then have b: "ScoreBreakdown.letters (breakdown (calculatePlateScore ''34'')) = Fin (1 + 1)"
    unfolding e by simp
  have l3: "ParsedPlate.letters (parsed (calculatePlateScore ''34BBB12'')) = ''BBB''"
    and t3: "plateType (calculatePlateScore ''34BBB12'') = STANDARD"
    by (simp_all add: score_34BBB12)
  have s3: "length (ParsedPlate.letters (parsed (calculatePlateScore ''34BBB12''))) \<le> 11"
    unfolding l3 by simp
  have b3: "letterPatternScore STANDARD ''BBB'' = 7.5" by code_simp
  have p3: "prod_list (map letterPosition ''BBB'') = 2 * 2 * 2"
    by (simp add: letterPosition_def charCode_def)
  from C7_letter_product_added [of "''34BBB12''"] s3
  have "ScoreBreakdown.letters (breakdown (calculatePlateScore ''34BBB12'')) =
            Fin (letterPatternScore (plateType (calculatePlateScore ''34BBB12''))
                   (ParsedPlate.letters (parsed (calculatePlateScore ''34BBB12'')))
                 + prod_list (map letterPosition
                            (ParsedPlate.letters (parsed (calculatePlateScore ''34BBB12'')))))"
    by blast
  then have c: "ScoreBreakdown.letters (breakdown (calculatePlateScore ''34BBB12''))
                = Fin (7.5 + 2 * 2 * 2)"
    unfolding l3 t3 b3 p3 .
  show ?thesis using h l a e b s3 c by (intro conjI)
qed

text \<open>
  C8. For every parsed province code: when the code is a key of \<open>provinceTiers\<close>, the
  province score is the value of the table, one of 1.5, 2.5, 5 and 10; otherwise it is the
  default 1. \<^verbatim>\<open>"99"\<close> is not a key, and \<^verbatim>\<open>score("99AB1")\<close> has province score 1.
\<close>

theorem C8_province_score:
  "(\<forall>v. map_of provinceTiers (provinceCode (parsed (calculatePlateScore plateText))) = Some v
        \<longrightarrow> province (breakdown (calculatePlateScore plateText)) = Fin v
            \<and> v \<in> {1.5, 2.5, 5, 10})
   \<and> (map_of provinceTiers (provinceCode (parsed (calculatePlateScore plateText))) = None
        \<longrightarrow> province (breakdown (calculatePlateScore plateText)) = Fin 1)
   \<and> map_of provinceTiers ''99'' = None
   \<and> provinceCode (parsed (calculatePlateScore ''99AB1'')) = ''99''
   \<and> province (breakdown (calculatePlateScore ''99AB1'')) = Fin 1"
proof -
  let ?code = "provinceCode (parseTurkishPlate plateText)"
  have nd: "?code \<noteq> ''default''"
    using length_provinceCode [of plateText] by auto
  have pr: "province (breakdown (calculatePlateScore plateText))
            = Fin (tableOr (map_of provinceTiers ?code) 1)"
    by (simp only: score_province provinceScore_exact provinceTiers_default)
  have some: "province (breakdown (calculatePlateScore plateText)) = Fin v
              \<and> v \<in> {1.5, 2.5, 5, 10}"
    if "map_of provinceTiers ?code = Some v" for v
  proof -
    have v: "v \<in> {1.5, 2.5, 5, 10}" using that nd by (rule provinceTiers_values)
    then have "v \<noteq> 0" by auto
    then show ?thesis using v that by (simp add: pr tableOr_def)
  qed
  have none: "province (breakdown (calculatePlateScore plateText)) = Fin 1"
    if "map_of provinceTiers ?code = None"
    using that by (simp add: pr tableOr_def)
  have ex: "map_of provinceTiers ''99'' = None" by code_simp
  show ?thesis using some none ex by (simp add: score_parsed score_99AB1)
qed

theorem C8_province_score_witness:
  "map_of provinceTiers (provinceCode (parsed (calculatePlateScore ''34AB123''))) = Some 1.5
   \<and> province (breakdown (calculatePlateScore ''34AB123'')) = Fin 1.5
   \<and> map_of provinceTiers (provinceCode (parsed (calculatePlateScore ''99AB1''))) = None
   \<and> province (breakdown (calculatePlateScore ''99AB1'')) = Fin 1"
proof -
  have "map_of provinceTiers ''34'' = Some 1.5" by code_simp
  then have h1: "map_of provinceTiers (provinceCode (parsed (calculatePlateScore ''34AB123'')))
                 = Some 1.5"
    by (simp add: score_34AB123)
  have "map_of provinceTiers ''99'' = None" by code_simp
  then have h2: "map_of provinceTiers (provinceCode (parsed (calculatePlateScore ''99AB1'')))
                 = None"
    by (simp add: score_99AB1)
  from C8_province_score [of "''34AB123''"] h1
  have a: "province (breakdown (calculatePlateScore ''34AB123'')) = Fin 1.5" by blast
  from C8_province_score [of "''99AB1''"] h2
  have b: "province (breakdown (calculatePlateScore ''99AB1'')) = Fin 1" by blast
  show ?thesis using h1 h2 a b by (intro conjI)
qed

text \<open>
  C9. The two STANDARD scenarios. \<^verbatim>\<open>score("34AB123")\<close> has letter score 3, digit tier
  2.5, digit sum 6, province score 1.5, special multiplier 1 and total
  \<open>(3+6) \<times> 2.5 \<times> 1.5 \<times> 1 = 33.75\<close>; \<^verbatim>\<open>score("81BB1")\<close> has letter score 14, digit tier
  10, digit sum 1, province score 10, special multiplier 1 and total
  \<open>(14+1) \<times> 10 \<times> 10 \<times> 1 = 1500\<close>.
\<close>

theorem C9_standard_scenarios:
  "calculatePlateScore ''34AB123'' =
     \<lparr> totalScore = Fin 33.75, plateType = STANDARD,
       breakdown = \<lparr> province = Fin 1.5, letters = Fin 3, digits = Fin 2.5, digitsum = Fin 6,
                     special = Fin 1 \<rparr>,
       parsed = \<lparr> provinceCode = ''34'', letters = ''AB'', digits = ''123'' \<rparr> \<rparr>
   \<and> (3 + 6) * 2.5 * 1.5 * 1 = (33.75 :: rat)
   \<and> calculatePlateScore ''81BB1'' =
     \<lparr> totalScore = Fin 1500, plateType = STANDARD,
       breakdown = \<lparr> province = Fin 10, letters = Fin 14, digits = Fin 10, digitsum = Fin 1,
                     special = Fin 1 \<rparr>,
       parsed = \<lparr> provinceCode = ''81'', letters = ''BB'', digits = ''1'' \<rparr> \<rparr>
   \<and> (14 + 1) * 10 * 10 * 1 = (1500 :: rat)"
  using score_34AB123 score_81BB1 by (intro conjI) simp_all

text \<open>
  C10. For every input string, empty and malformed ones too, the result is consistent
  with itself: the total is \<open>(letters + digitsum) \<times> digits \<times> province \<times> special\<close> of
  its own breakdown, computed in the arithmetic of the language, and it is a number (not
  \<^verbatim>\<open>NaN\<close>, which is equal to nothing); its \<^verbatim>\<open>parsed\<close> field is
  \<open>parseTurkishPlate\<close> of the input, and its plate type is \<open>detectPlateType\<close> of the
  parsed letters.
\<close>

theorem C10_result_consistent:
  "totalScore (calculatePlateScore plateText) =
     fmul (fmul (fmul (fadd (ScoreBreakdown.letters (breakdown (calculatePlateScore plateText)))
                            (digitsum (breakdown (calculatePlateScore plateText))))
                      (ScoreBreakdown.digits (breakdown (calculatePlateScore plateText))))
                (province (breakdown (calculatePlateScore plateText))))
          (special (breakdown (calculatePlateScore plateText)))
   \<and> totalScore (calculatePlateScore plateText) \<noteq> NaN
   \<and> parsed (calculatePlateScore plateText) = parseTurkishPlate plateText
   \<and> plateType (calculatePlateScore plateText) =
       detectPlateType (ParsedPlate.letters (parsed (calculatePlateScore plateText)))"
  using totalScore_ge1 [of plateText] score_total [of plateText]
  by (simp add: ge1_not_NaN score_parsed score_plateType)

end
